theory Spec2Isabelle
  imports Complex_Main "HOL-Library.Log_Nat"
begin

section \<open>JavaScript numbers\<close>

text \<open>
  Every number of the program is an IEEE 754 double. A finite double is a real number, and
  each arithmetic operation of JavaScript returns the exact real result rounded to the
  nearest double. The model keeps the numbers as reals and writes the rounding out: every
  function below takes the rounding function \<open>rnd\<close> as its first argument and applies it
  after each \<open>+\<close>, \<open>-\<close>, \<open>*\<close>, \<open>/\<close> of the source and to each decimal literal that
  is not an integer. Two instances matter: \<open>round_double\<close>, the rounding of the machine, and
  \<open>exact\<close>, real arithmetic without rounding. Comparisons, \<open>Math.max\<close>, \<open>Math.min\<close>,
  \<open>Math.floor\<close>, \<open>Math.ceil\<close> and \<open>Math.round\<close> are exact on doubles and are not rounded.
  Array lengths, loop counters and candle indices are integers far below \<open>2 ^ 53\<close>, where
  double arithmetic is exact; they are modelled as \<open>nat\<close> and \<open>int\<close>.

  Not represented: \<open>NaN\<close> and the infinities. They arise from a division by zero or from
  an overflow: an exact result of magnitude \<open>2 ^ 1024 - 2 ^ 970\<close> or more rounds to
  \<open>Infinity\<close> in JavaScript, while \<open>round_double\<close> keeps it finite. So \<open>round_double\<close> is
  the rounding of the machine on the numbers that satisfy \<open>in_double_range\<close> only, and a
  theorem that speaks of the values computed in double arithmetic either evaluates concrete
  numbers in that range or assumes bounds that keep every operation there. The engine
  divides by \<open>P1 - P0\<close> only after it has
  checked \<open>P1 > P0\<close>, and the difference of two distinct doubles is not zero; the bias of
  the trend signals divides by the moving average, and the theorem about it assumes the
  average to be nonzero.
\<close>

type_synonym rounding = "real \<Rightarrow> real"

definition exact :: rounding where
  "exact x = x"

definition jadd :: "rounding \<Rightarrow> real \<Rightarrow> real \<Rightarrow> real" where
  "jadd rnd x y = rnd (x + y)"

definition jsub :: "rounding \<Rightarrow> real \<Rightarrow> real \<Rightarrow> real" where
  "jsub rnd x y = rnd (x - y)"

definition jmul :: "rounding \<Rightarrow> real \<Rightarrow> real \<Rightarrow> real" where
  "jmul rnd x y = rnd (x * y)"

definition jdiv :: "rounding \<Rightarrow> real \<Rightarrow> real \<Rightarrow> real" where
  "jdiv rnd x y = rnd (x / y)"

subsection \<open>Rounding to the nearest double\<close>

text \<open>
  \<open>round_even\<close> rounds to the nearest integer, ties to the even one. \<open>binary_exponent x\<close>
  is the \<open>e\<close> with \<open>2 ^ e \<le> \<bar>x\<bar> < 2 ^ (e + 1)\<close>. A double has 53 significant bits, so the
  doubles around \<open>x\<close> are the multiples of \<open>2 ^ (e - 52)\<close>; below the smallest normal
  number \<open>2 ^ - 1022\<close> the spacing stays at \<open>2 ^ - 1074\<close> (subnormal numbers).
\<close>

definition round_even :: "real \<Rightarrow> int" where
  "round_even y =
     (let n = \<lfloor>y\<rfloor>; d = y - of_int n
      in if d < 1 / 2 then n else if 1 / 2 < d then n + 1
         else if even n then n else n + 1)"

definition binary_exponent :: "real \<Rightarrow> int" where
  "binary_exponent x =
     (if 1 \<le> \<bar>x\<bar> then int (floorlog 2 (nat \<lfloor>\<bar>x\<bar>\<rfloor>)) - 1
      else - int (floorlog 2 (nat (\<lceil>1 / \<bar>x\<bar>\<rceil> - 1))))"

definition pow2 :: "int \<Rightarrow> real" where
  "pow2 e = (if 0 \<le> e then 2 ^ nat e else 1 / 2 ^ nat (- e))"

definition round_double :: rounding where
  "round_double x =
     (if x = 0 then 0
      else let u = pow2 (max (binary_exponent x) (- 1022) - 52)
           in of_int (round_even (x / u)) * u)"

text \<open>
  The exact results that round to a finite double: those below the midpoint between the
  largest double \<open>2 ^ 1024 - 2 ^ 971\<close> and \<open>2 ^ 1024\<close>.
\<close>

definition in_double_range :: "real \<Rightarrow> bool" where
  "in_double_range x \<longleftrightarrow> \<bar>x\<bar> < 2 ^ 1024 - 2 ^ 970"


section \<open>Projection engine (CalculatorView, "Logic Core")\<close>

text \<open>
  \<open>WaveInputs\<close>: each field is a number or the empty string \<open>''\<close>; the empty string is
  \<open>None\<close>.
\<close>

record wave_inputs =
  p0 :: "real option"
  p1 :: "real option"
  p2 :: "real option"
  p3 :: "real option"
  current :: "real option"

text \<open>
  The state \<open>fibRatio\<close> has the type \<open>0.382 | 0.5 | 0.618\<close>; \<open>ratio_value\<close> is the
  number the literal denotes.
\<close>

datatype fib_ratio = R0382 | R05 | R0618

definition ratio_value :: "rounding \<Rightarrow> fib_ratio \<Rightarrow> real" where
  "ratio_value rnd r =
     (case r of R0382 \<Rightarrow> rnd (382 / 1000) | R05 \<Rightarrow> rnd (5 / 10) | R0618 \<Rightarrow> rnd (618 / 1000))"

text \<open>
  The four error messages of the source, in the order of their checks:
  wave-1 high must exceed the start price (P1 > P0);
  wave-2 low must not break below the start price;
  wave-2 must be a retracement (P2 < P1);
  wave-3 high must exceed P2.
\<close>

datatype wave_error =
    Wave1HighNotAboveStart
  | Wave2BreaksStart
  | Wave2NotRetracement
  | Wave3NotAboveP2

record calculation_result =
  isValid :: bool
  error :: "wave_error option"
  w1Height :: real
  w2RetracementPct :: real
  w3Min :: real
  w3Gold :: real
  w4Target :: real
  w5Target :: real
  selectedRatio :: real
  usingManualP3 :: bool

text \<open>The initial value of the state \<open>result\<close>.\<close>

definition initial_result :: "rounding \<Rightarrow> calculation_result" where
  "initial_result rnd =
     \<lparr>isValid = False, error = None, w1Height = 0, w2RetracementPct = 0, w3Min = 0,
      w3Gold = 0, w4Target = 0, w5Target = 0, selectedRatio = rnd (382 / 1000),
      usingManualP3 = False\<rparr>"

text \<open>
  The effect that recomputes \<open>result\<close> whenever \<open>inputs\<close> or \<open>fibRatio\<close> change. Each
  \<open>setResult\<close> of the source is followed by \<open>return\<close> (or ends the effect), so the effect is
  a function from the previous result to the next one.
\<close>

definition logic_core ::
  "rounding \<Rightarrow> wave_inputs \<Rightarrow> fib_ratio \<Rightarrow> calculation_result \<Rightarrow> calculation_result" where
  "logic_core rnd inputs fibRatio prev =
     (case (p0 inputs, p1 inputs, p2 inputs) of
        (Some valP0, Some valP1, Some valP2) \<Rightarrow>
          (let valP3 = p3 inputs in
           if valP1 \<le> valP0
             then prev\<lparr>isValid := False, error := Some Wave1HighNotAboveStart\<rparr>
           else if valP2 \<le> valP0
             then prev\<lparr>isValid := False, error := Some Wave2BreaksStart\<rparr>
           else if valP2 \<ge> valP1
             then prev\<lparr>isValid := False, error := Some Wave2NotRetracement\<rparr>
           else
             (let w1Height = jsub rnd valP1 valP0;
                  w2RetracementVal = jsub rnd valP1 valP2;
                  w2RetracementPct = jmul rnd (jdiv rnd w2RetracementVal w1Height) 100;
                  w3Min = jadd rnd valP2 w1Height;
                  w3Gold = jadd rnd valP2 (jmul rnd w1Height (rnd (1618 / 1000)))
              in if (case valP3 of Some v \<Rightarrow> v \<le> valP2 | None \<Rightarrow> False)
                   then prev\<lparr>isValid := False, error := Some Wave3NotAboveP2\<rparr>
                 else
                   (let activeW3Peak = (case valP3 of Some v \<Rightarrow> v | None \<Rightarrow> w3Gold);
                        w3Height = jsub rnd activeW3Peak valP2;
                        w4Target = jsub rnd activeW3Peak (jmul rnd w3Height (ratio_value rnd fibRatio));
                        w5Target = jadd rnd w4Target w1Height
                    in \<lparr>isValid = True, error = None, w1Height = w1Height,
                        w2RetracementPct = w2RetracementPct, w3Min = w3Min, w3Gold = w3Gold,
                        w4Target = w4Target, w5Target = w5Target,
                        selectedRatio = ratio_value rnd fibRatio,
                        usingManualP3 = (valP3 \<noteq> None)\<rparr>)))
      | _ \<Rightarrow> prev\<lparr>isValid := False, error := None\<rparr>)"

text \<open>
  The exact result, before rounding, of each operation of the effect that \<open>w4Target\<close> and
  \<open>w5Target\<close> depend on, in double arithmetic and in the order of the source:
  \<open>valP1 - valP0\<close>, \<open>w1Height * 1.618\<close>, \<open>valP2 + ...\<close>, \<open>activeW3Peak - valP2\<close>,
  \<open>w3Height * fibRatio\<close>, \<open>activeW3Peak - ...\<close> and \<open>w4Target + w1Height\<close>. When all of
  them are in the range of the doubles, no operation overflows and the values of the model
  are those of the machine.
\<close>

definition target_operations ::
  "real \<Rightarrow> real \<Rightarrow> real \<Rightarrow> real option \<Rightarrow> fib_ratio \<Rightarrow> real list" where
  "target_operations valP0 valP1 valP2 valP3 fibRatio =
     (let rnd = round_double;
          w1Height = jsub rnd valP1 valP0;
          extension = jmul rnd w1Height (rnd (1618 / 1000));
          w3Gold = jadd rnd valP2 extension;
          activeW3Peak = (case valP3 of Some v \<Rightarrow> v | None \<Rightarrow> w3Gold);
          w3Height = jsub rnd activeW3Peak valP2;
          retracement = jmul rnd w3Height (ratio_value rnd fibRatio);
          w4Target = jsub rnd activeW3Peak retracement
      in [valP1 - valP0,
          w1Height * rnd (1618 / 1000),
          valP2 + extension,
          activeW3Peak - valP2,
          w3Height * ratio_value rnd fibRatio,
          activeW3Peak - retracement,
          w4Target + w1Height])"

text \<open>
  The state \<open>result\<close> over time: the effect runs once for each change of \<open>inputs\<close> or
  \<open>fibRatio\<close>, each run starting from the result the previous run left.
\<close>

fun run_effects ::
  "rounding \<Rightarrow> (wave_inputs \<times> fib_ratio) list \<Rightarrow> calculation_result \<Rightarrow> calculation_result" where
  "run_effects rnd [] res = res"
| "run_effects rnd ((inputs, fibRatio) # rest) res =
     run_effects rnd rest (logic_core rnd inputs fibRatio res)"

text \<open>The computed outputs of a result: every field but \<open>isValid\<close> and \<open>error\<close>.\<close>

definition numeric_fields ::
  "calculation_result \<Rightarrow> real \<times> real \<times> real \<times> real \<times> real \<times> real \<times> real \<times> bool" where
  "numeric_fields res =
     (w1Height res, w2RetracementPct res, w3Min res, w3Gold res, w4Target res, w5Target res,
      selectedRatio res, usingManualP3 res)"

subsection \<open>The validation as the specification words it\<close>

text \<open>
  The specification lists four checks in a fixed order, each with its reason, and lets the
  first failing one win. \<open>validation_checks\<close> is that list (a check paired with the
  reason reported when it fails) and \<open>first_failure\<close> the reason of the first check that
  does not hold. Both follow the specification, to be compared with \<open>logic_core\<close>.
\<close>

definition validation_checks ::
  "real \<Rightarrow> real \<Rightarrow> real \<Rightarrow> real option \<Rightarrow> (bool \<times> wave_error) list" where
  "validation_checks valP0 valP1 valP2 valP3 =
     [(valP1 > valP0, Wave1HighNotAboveStart),
      (valP2 > valP0, Wave2BreaksStart),
      (valP2 < valP1, Wave2NotRetracement),
      (case valP3 of None \<Rightarrow> True | Some v \<Rightarrow> v > valP2, Wave3NotAboveP2)]"

definition first_failure :: "(bool \<times> wave_error) list \<Rightarrow> wave_error option" where
  "first_failure checks = map_option snd (find (\<lambda>c. \<not> fst c) checks)"

subsection \<open>Concrete inputs\<close>

definition empty_inputs :: wave_inputs where
  "empty_inputs = \<lparr>p0 = None, p1 = None, p2 = None, p3 = None, current = None\<rparr>"

definition scenario_A_inputs :: wave_inputs where
  "scenario_A_inputs =
     \<lparr>p0 = Some 100, p1 = Some 150, p2 = Some 120, p3 = None, current = None\<rparr>"

definition scenario_B_inputs :: wave_inputs where
  "scenario_B_inputs =
     \<lparr>p0 = Some 100, p1 = Some 150, p2 = Some 120, p3 = Some 200, current = None\<rparr>"

definition scenario_C_inputs :: wave_inputs where
  "scenario_C_inputs =
     \<lparr>p0 = Some 100, p1 = Some 150, p2 = Some 95, p3 = None, current = None\<rparr>"

definition rounding_inputs :: wave_inputs where
  "rounding_inputs =
     \<lparr>p0 = Some 10, p1 = Some 20, p2 = Some 15, p3 = None, current = None\<rparr>"

section \<open>Viewport and indexing model (SmartChartComponent)\<close>

record candle =
  date :: string
  "open" :: real
  high :: real
  low :: real
  close :: real
  volume :: real

text \<open>\<open>ChartPoint\<close>; its field \<open>date\<close> is \<open>pdate\<close> here, its field \<open>type\<close> is \<open>ptype\<close>.\<close>

datatype point_type = TypeP0 | TypeP1 | TypeP2

record chart_point =
  index :: int
  price :: real
  pdate :: string
  ptype :: point_type

text \<open>
  The state of the component that the viewport depends on: the hooks \<open>points\<close>,
  \<open>selection\<close>, \<open>offset\<close>, \<open>zoom\<close> and the ref \<open>prevDataLen.current\<close>.
\<close>

record chart_state =
  points :: "chart_point list"
  selection :: "int option"
  offset :: real
  zoom :: real
  prevDataLen :: nat

subsection \<open>Synchronous offset adjustment\<close>

text \<open>
  Computed during rendering, before any effect runs: while \<open>prevDataLen\<close> still holds the
  length of the previous sequence, a longer sequence shifts the offset in the same render.
\<close>

definition dataDiff :: "candle list \<Rightarrow> chart_state \<Rightarrow> int" where
  "dataDiff data st =
     (if length data > prevDataLen st then int (length data) - int (prevDataLen st) else 0)"

definition effectiveOffset :: "rounding \<Rightarrow> candle list \<Rightarrow> chart_state \<Rightarrow> real" where
  "effectiveOffset rnd data st =
     (if length data > prevDataLen st
      then jadd rnd (offset st) (of_int (int (length data) - int (prevDataLen st)))
      else offset st)"

text \<open>The layout effect on \<open>data.length\<close>.\<close>

definition layoutEffect :: "rounding \<Rightarrow> candle list \<Rightarrow> chart_state \<Rightarrow> chart_state" where
  "layoutEffect rnd data st =
     (if length data > prevDataLen st then
        (let diff = int (length data) - int (prevDataLen st)
         in st\<lparr>offset := jadd rnd (offset st) (of_int diff),
               selection := map_option (\<lambda>prev. prev + diff) (selection st),
               points := map (\<lambda>p. p\<lparr>index := index p + diff\<rparr>) (points st),
               prevDataLen := length data\<rparr>)
      else if length data < prevDataLen st then
        st\<lparr>prevDataLen := length data,
            offset := of_int (max 0 (int (length data) - 60))\<rparr>
      else st\<lparr>prevDataLen := length data\<rparr>)"

text \<open>\<open>handleResetView\<close>, the handler of the button that resets the view.\<close>

definition handleResetView :: "candle list \<Rightarrow> chart_state \<Rightarrow> chart_state" where
  "handleResetView data st =
     (let targetZoom = 60
      in st\<lparr>zoom := of_int targetZoom,
            offset := of_int (max 0 (int (length data) - targetZoom))\<rparr>)"

subsection \<open>Visible index range\<close>

definition visibleStartIndex :: "rounding \<Rightarrow> candle list \<Rightarrow> chart_state \<Rightarrow> int" where
  "visibleStartIndex rnd data st = \<lfloor>max 0 (effectiveOffset rnd data st)\<rfloor>"

definition visibleEndIndex :: "rounding \<Rightarrow> candle list \<Rightarrow> chart_state \<Rightarrow> int" where
  "visibleEndIndex rnd data st =
     min (int (length data) - 1) \<lceil>jadd rnd (effectiveOffset rnd data st) (zoom st)\<rceil>"

subsection \<open>Mounting and replacement (StockAnalyzer)\<close>

text \<open>
  A chart that mounts starts from the initial values of its hooks, with the ref
  \<open>prevDataLen\<close> initialised to \<open>data.length\<close>. \<open>initialOffsetEffect\<close> is the effect that
  positions the view when data arrive; it runs after the layout effect of the same commit
  and reads the ref that the layout effect has written.
\<close>

definition mountSmartChart :: "candle list \<Rightarrow> chart_state" where
  "mountSmartChart data =
     \<lparr>points = [], selection = None, offset = 0, zoom = 60, prevDataLen = length data\<rparr>"

definition initialOffsetEffect :: "candle list \<Rightarrow> chart_state \<Rightarrow> chart_state" where
  "initialOffsetEffect data st =
     (if length data > 0 \<and> prevDataLen st = 0
      then st\<lparr>offset := of_int (max 0 (int (length data) - 60))\<rparr>
      else st)"

definition commitEffects :: "rounding \<Rightarrow> candle list \<Rightarrow> chart_state \<Rightarrow> chart_state" where
  "commitEffects rnd data st = initialOffsetEffect data (layoutEffect rnd data st)"

text \<open>
  StockAnalyzer renders the chart only while \<open>data.length > 0\<close>; with an empty sequence the
  chart is unmounted and its state is lost (\<open>None\<close>). Both effects have the dependency
  \<open>data.length\<close>: they run when the chart mounts and when the length differs from the one
  of the previous commit, which is the value of \<open>prevDataLen\<close>.
\<close>

definition renderSmartChart ::
  "rounding \<Rightarrow> candle list \<Rightarrow> chart_state option \<Rightarrow> chart_state option" where
  "renderSmartChart rnd data chart =
     (if length data > 0 then
        (case chart of
           None \<Rightarrow> Some (commitEffects rnd data (mountSmartChart data))
         | Some st \<Rightarrow>
             Some (if length data \<noteq> prevDataLen st then commitEffects rnd data st else st))
      else None)"

text \<open>
  \<open>fetchStockData\<close> for a symbol: \<open>setData([])\<close> before the request, then
  \<open>setData(parsedData)\<close> when the request returns a non-empty sequence; a failed request
  (\<open>None\<close>) or an empty answer leaves the sequence empty.
\<close>

definition fetchStockData ::
  "rounding \<Rightarrow> candle list option \<Rightarrow> chart_state option \<Rightarrow> chart_state option" where
  "fetchStockData rnd fetched chart =
     (let cleared = renderSmartChart rnd [] chart
      in case fetched of
           None \<Rightarrow> cleared
         | Some parsedData \<Rightarrow>
             if length parsedData = 0 then cleared
             else renderSmartChart rnd parsedData cleared)"

subsection \<open>Pivot confirmation\<close>

text \<open>
  \<open>getNextPointType\<close> gives the role of the next pivot and whether its price is the high
  of the candle (else the low); a fourth pivot is not offered. \<open>confirmSetPoint\<close> appends
  the pivot for the selected candle. A selection outside the sequence makes \<open>data[selection]\<close>
  undefined, and reading its price throws.
\<close>

datatype js_error = TypeError

definition getNextPointType :: "chart_state \<Rightarrow> (point_type \<times> bool) option" where
  "getNextPointType st =
     (if length (points st) = 0 then Some (TypeP0, False)
      else if length (points st) = 1 then Some (TypeP1, True)
      else if length (points st) = 2 then Some (TypeP2, False)
      else None)"

definition confirmSetPoint :: "candle list \<Rightarrow> chart_state \<Rightarrow> js_error + chart_state" where
  "confirmSetPoint data st =
     (case selection st of
        None \<Rightarrow> Inr st
      | Some sel \<Rightarrow>
          (case getNextPointType st of
             None \<Rightarrow> Inr st
           | Some (nextType, isHigh) \<Rightarrow>
               if 0 \<le> sel \<and> sel < int (length data) then
                 (let candle = data ! nat sel;
                      price = (if isHigh then high candle else low candle)
                  in Inr (st\<lparr>points := points st @
                                [\<lparr>index = sel, price = price, pdate = date candle,
                                  ptype = nextType\<rparr>],
                              selection := None\<rparr>))
               else Inl TypeError))"

text \<open>
  A pivot is anchored in a sequence when its index is an index of the sequence and its date
  is the date of the candle there. \<open>confirmSetPoint\<close> creates anchored pivots and the
  layout effect keeps them anchored when older candles are prepended (both proved below).
\<close>

definition anchored :: "candle list \<Rightarrow> chart_point \<Rightarrow> bool" where
  "anchored data p \<longleftrightarrow>
     0 \<le> index p \<and> nat (index p) < length data \<and> date (data ! nat (index p)) = pdate p"

subsection \<open>Re-indexing of the pivots\<close>

text \<open>\<open>Array.prototype.findIndex\<close>: the first index whose element satisfies \<open>P\<close>, else \<open>-1\<close>.\<close>

fun findIndex :: "('a \<Rightarrow> bool) \<Rightarrow> 'a list \<Rightarrow> int" where
  "findIndex P [] = - 1"
| "findIndex P (x # xs) =
     (if P x then 0 else (let r = findIndex P xs in if r = - 1 then - 1 else r + 1))"

definition mappedPoints :: "candle list \<Rightarrow> chart_state \<Rightarrow> chart_point list" where
  "mappedPoints data st =
     map (\<lambda>p. let newIndex = findIndex (\<lambda>d. date d = pdate p) data
              in if newIndex \<noteq> - 1 then p\<lparr>index := newIndex\<rparr>
                 else p\<lparr>index := index p + dataDiff data st\<rparr>)
         (points st)"

subsection \<open>Overlays of one bar\<close>

text \<open>
  The loop over the visible bars computes, for the bar at index \<open>i\<close>, the fields
  \<open>volMA\<close>, \<open>isVolAnomaly\<close>, \<open>maValue\<close> and \<open>granvilleSignal\<close> of its render record. The
  loop only visits indices of the sequence, so \<open>i < length data\<close> there. The window lengths
  \<open>volMALength\<close> and \<open>maLength\<close> are numbers typed by the user.

  \<open>vLen\<close> is \<open>Math.max(1, Math.round(volMALength))\<close>; \<open>Math.round\<close> rounds half up.
\<close>

definition vLen :: "real \<Rightarrow> nat" where
  "vLen volMALength = nat (max 1 \<lfloor>volMALength + 1 / 2\<rfloor>)"

text \<open>The inner loop \<open>for k = 1 .. vLen\<close>, adding \<open>data[i - k].volume\<close> to \<open>sumVol\<close>.\<close>

definition sumVol :: "rounding \<Rightarrow> candle list \<Rightarrow> nat \<Rightarrow> nat \<Rightarrow> real" where
  "sumVol rnd data i n = foldl (\<lambda>s k. jadd rnd s (volume (data ! (i - k)))) 0 [1..<Suc n]"

definition volMA :: "rounding \<Rightarrow> candle list \<Rightarrow> real \<Rightarrow> nat \<Rightarrow> real option" where
  "volMA rnd data volMALength i =
     (let n = vLen volMALength
      in if i \<ge> n then Some (jdiv rnd (sumVol rnd data i n) (real n)) else None)"

definition isVolAnomaly :: "rounding \<Rightarrow> candle list \<Rightarrow> real \<Rightarrow> nat \<Rightarrow> bool" where
  "isVolAnomaly rnd data volMALength i =
     (case volMA rnd data volMALength i of
        Some m \<Rightarrow> volume (data ! i) \<ge> m
      | None \<Rightarrow> False)"

text \<open>
  \<open>maData[i]\<close>, \<open>None\<close> for \<open>null\<close>. The loop \<open>for k = 0; k < maLength\<close> runs for the
  naturals below \<open>maLength\<close>. For \<open>maLength \<le> 0\<close> the source divides by zero or reads
  \<open>data[-1]\<close>; the theorems assume \<open>0 < maLength\<close>.
\<close>

definition maData :: "rounding \<Rightarrow> bool \<Rightarrow> real \<Rightarrow> candle list \<Rightarrow> nat \<Rightarrow> real option" where
  "maData rnd granvilleEnabled maLength data i =
     (if granvilleEnabled \<and> real i \<ge> jsub rnd maLength 1
      then Some (jdiv rnd
                   (foldl (\<lambda>s k. jadd rnd s (close (data ! (i - k)))) 0 [0..<nat \<lceil>maLength\<rceil>])
                   maLength)
      else None)"

text \<open>
  A signal \<open>{type, code, label}\<close> with the types \<open>'B'\<close> and \<open>'S'\<close>; the label is a fixed
  text for each code and is left out.
\<close>

datatype signal_type = TypeB | TypeS

record granville_signal =
  stype :: signal_type
  code :: nat

definition granvilleSignal ::
  "rounding \<Rightarrow> bool \<Rightarrow> real \<Rightarrow> candle list \<Rightarrow> nat \<Rightarrow> granville_signal option" where
  "granvilleSignal rnd granvilleEnabled maLength data i =
     (if granvilleEnabled \<and> real i > maLength then
        (case (maData rnd granvilleEnabled maLength data i,
               maData rnd granvilleEnabled maLength data (i - 1)) of
           (Some currentMa, Some prevMa) \<Rightarrow>
             (let prevPrice = close (data ! (i - 1));
                  currPrice = close (data ! i);
                  bias = jdiv rnd (jsub rnd currPrice currentMa) currentMa;
                  isMaRising = currentMa > prevMa;
                  isMaFalling = currentMa < prevMa
              in if \<not> isMaFalling \<and> prevPrice < prevMa \<and> currPrice > currentMa
                   then Some \<lparr>stype = TypeB, code = 1\<rparr>
                 else if \<not> isMaRising \<and> prevPrice > prevMa \<and> currPrice < currentMa
                   then Some \<lparr>stype = TypeS, code = 5\<rparr>
                 else if bias < - rnd (20 / 100)
                   then Some \<lparr>stype = TypeB, code = 4\<rparr>
                 else if bias > rnd (20 / 100)
                   then Some \<lparr>stype = TypeS, code = 8\<rparr>
                 else None)
         | _ \<Rightarrow> None)
      else None)"

subsection \<open>The signal rules as the specification words them\<close>

text \<open>
  The specification names four categories in a fixed priority order: breakout-up (the
  average flat or rising, the close crossing from below the previous average to above the
  current one), breakdown-down (the average flat or falling, the close crossing from above
  to below), oversold (bias below -20%) and overbought (bias above +20%), with
  \<open>bias = (close - MA) / MA\<close>; the first that matches wins. \<open>signal_rules\<close> is that list,
  \<open>first_match\<close> the signal of the first rule whose condition holds. Both follow the
  specification, to be compared with \<open>granvilleSignal\<close>.
\<close>

definition first_match :: "(bool \<times> 'a) list \<Rightarrow> 'a option" where
  "first_match rules = map_option snd (find fst rules)"

definition signal_rules ::
  "rounding \<Rightarrow> real \<Rightarrow> real \<Rightarrow> real \<Rightarrow> real \<Rightarrow> (bool \<times> granville_signal) list" where
  "signal_rules rnd prevPrice currPrice prevMa currentMa =
     (let bias = jdiv rnd (jsub rnd currPrice currentMa) currentMa
      in [(prevMa \<le> currentMa \<and> prevPrice < prevMa \<and> currPrice > currentMa,
             \<lparr>stype = TypeB, code = 1\<rparr>),
          (currentMa \<le> prevMa \<and> prevPrice > prevMa \<and> currPrice < currentMa,
             \<lparr>stype = TypeS, code = 5\<rparr>),
          (bias < - rnd (20 / 100), \<lparr>stype = TypeB, code = 4\<rparr>),
          (bias > rnd (20 / 100), \<lparr>stype = TypeS, code = 8\<rparr>)])"

subsection \<open>Concrete sequences and states\<close>

text \<open>
  \<open>flat_candles n\<close> is a sequence of \<open>n\<close> candles with the distinct dates \<open>000\<close>, \<open>001\<close>,
  ... (for \<open>n \<le> 1000\<close>).
\<close>

definition day_label :: "nat \<Rightarrow> string" where
  "day_label i = map (\<lambda>d. char_of (48 + d)) [i div 100 mod 10, i div 10 mod 10, i mod 10]"

definition flat_candles :: "nat \<Rightarrow> candle list" where
  "flat_candles n =
     map (\<lambda>i. \<lparr>date = day_label i, open = 100, high = 101, low = 99, close = 100,
               volume = 1000\<rparr>) [0..<n]"

definition scenario_D_state :: chart_state where
  "scenario_D_state =
     \<lparr>points = [], selection = None, offset = 0, zoom = 60, prevDataLen = 200\<rparr>"

text \<open>\<open>bar d c v\<close> is a candle of date \<open>d\<close> that opens and closes at \<open>c\<close> with volume \<open>v\<close>.\<close>

definition bar :: "string \<Rightarrow> real \<Rightarrow> real \<Rightarrow> candle" where
  "bar d c v = \<lparr>date = d, open = c, high = c, low = c, close = c, volume = v\<rparr>"

definition volume_bars :: "candle list" where
  "volume_bars = [bar ''d0'' 100 10, bar ''d1'' 100 20, bar ''d2'' 100 15, bar ''d3'' 100 40]"

definition breakout_bars :: "candle list" where
  "breakout_bars =
     [bar ''d0'' 10 1, bar ''d1'' 10 1, bar ''d2'' 10 1, bar ''d3'' 10 1, bar ''d4'' 5 1,
      bar ''d5'' 20 1]"

definition rising_bars :: "candle list" where
  "rising_bars =
     [bar ''d0'' 10 1, bar ''d1'' 10 1, bar ''d2'' 10 1, bar ''d3'' 10 1, bar ''d4'' 10 1,
      bar ''d5'' 5 1, bar ''d6'' 20 1]"

definition older_bars :: "candle list" where
  "older_bars = [bar ''d0'' 100 10, bar ''d1'' 100 20]"

definition recent_bars :: "candle list" where
  "recent_bars = [bar ''d2'' 100 15, bar ''d3'' 100 40, bar ''d4'' 100 30]"

definition pivot_state :: chart_state where
  "pivot_state =
     \<lparr>points = [\<lparr>index = 0, price = 100, pdate = ''d2'', ptype = TypeP0\<rparr>,
                \<lparr>index = 2, price = 100, pdate = ''d4'', ptype = TypeP1\<rparr>],
      selection = None, offset = 1 / 2, zoom = 60, prevDataLen = 3\<rparr>"

section \<open>The rounding of doubles\<close>

text \<open>
  \<open>binary_exponent\<close> is the exponent it is meant to be, and \<open>round_double\<close> moves a number
  by at most half a unit in the last place: by a relative error of at most \<open>2 ^ - 53\<close>, or
  by \<open>2 ^ - 1075\<close> among the subnormal numbers.
\<close>

lemma pow2_pos: "0 < pow2 e"
  by (simp add: pow2_def)

lemma pow2_Suc: "pow2 (e + 1) = 2 * pow2 e"
proof (cases "0 \<le> e")
  case True
  then have "nat (e + 1) = Suc (nat e)" by simp
  with True show ?thesis by (simp add: pow2_def)
next
  case False
  then have "nat (- e) = Suc (nat (- (e + 1)))" by simp
  with False show ?thesis by (simp add: pow2_def)
qed

lemma binary_exponent_bounds:
  assumes "x \<noteq> 0"
  shows "pow2 (binary_exponent x) \<le> \<bar>x\<bar> \<and> \<bar>x\<bar> < pow2 (binary_exponent x + 1)"
proof (cases "1 \<le> \<bar>x\<bar>")
  case True
  define n where "n = nat \<lfloor>\<bar>x\<bar>\<rfloor>"
  define k where "k = floorlog 2 n"
  from True have n: "0 < n" "real n \<le> \<bar>x\<bar>" "\<bar>x\<bar> < real n + 1"
    unfolding n_def by linarith+
  have two: "(1::nat) < 2" by simp
  have b: "2 ^ (k - 1) \<le> n" "n < 2 ^ k"
    unfolding k_def using floorlog_bounds [OF n(1) two] by simp_all
  from n have "k \<noteq> 0" unfolding k_def by (simp add: floorlog_eq_zero_iff)
  then have k: "0 < k" by simp
  have e: "binary_exponent x = int k - 1"
    using True by (simp add: binary_exponent_def n_def k_def)
  have p1: "pow2 (int k - 1) = 2 ^ (k - 1)"
    using k by (simp add: pow2_def nat_diff_distrib')
  have p2: "pow2 (int k - 1 + 1) = 2 ^ k"
    by (simp add: pow2_def)
  have r1: "(2::real) ^ (k - 1) \<le> real n"
    using of_nat_mono [OF b(1), where ?'a = real] by simp
  have r2: "real n + 1 \<le> 2 ^ k"
    using of_nat_mono [OF Suc_leI [OF b(2)], where ?'a = real] by simp
  from r1 n(2) have "pow2 (int k - 1) \<le> \<bar>x\<bar>" unfolding p1 by linarith
  moreover from r2 n(3) have "\<bar>x\<bar> < pow2 (int k - 1 + 1)" unfolding p2 by linarith
  ultimately show ?thesis unfolding e by blast
next
  case False
  define y where "y = 1 / \<bar>x\<bar>"
  define m where "m = \<lceil>y\<rceil>"
  define k where "k = floorlog 2 (nat (m - 1))"
  from False assms have x: "0 < \<bar>x\<bar>" "\<bar>x\<bar> < 1" by simp_all
  then have y: "1 < y" unfolding y_def by simp
  then have m: "2 \<le> m" "y \<le> of_int m" "of_int m - 1 < y" unfolding m_def by linarith+
  then have pos: "0 < nat (m - 1)" by simp
  have two: "(1::nat) < 2" by simp
  have b: "2 ^ (k - 1) \<le> nat (m - 1)" "nat (m - 1) < 2 ^ k"
    unfolding k_def using floorlog_bounds [OF pos two] by simp_all
  from pos have "k \<noteq> 0" unfolding k_def by (simp add: floorlog_eq_zero_iff)
  then have k: "0 < k" by simp
  have e: "binary_exponent x = - int k"
    using False by (simp add: binary_exponent_def y_def m_def k_def)
  have xy: "\<bar>x\<bar> = 1 / y" unfolding y_def by simp
  have "real (nat (m - 1)) + 1 \<le> 2 ^ k"
    using of_nat_mono [OF Suc_leI [OF b(2)], where ?'a = real] by simp
  then have "of_int m \<le> (2::real) ^ k" using m(1) by (simp add: of_nat_nat)
  then have yk: "y \<le> 2 ^ k" using m(2) by linarith
  have "(2::real) ^ (k - 1) \<le> real (nat (m - 1))"
    using of_nat_mono [OF b(1), where ?'a = real] by simp
  then have "(2::real) ^ (k - 1) \<le> of_int m - 1" using m(1) by (simp add: of_nat_nat)
  then have ky: "2 ^ (k - 1) < y" using m(3) by linarith
  have lower: "pow2 (- int k) \<le> \<bar>x\<bar>"
  proof -
    have "pow2 (- int k) = 1 / 2 ^ k" using k by (simp add: pow2_def)
    also have "\<dots> \<le> 1 / y" using yk y by (simp add: frac_le)
    finally show ?thesis by (simp add: xy)
  qed
  have upper: "\<bar>x\<bar> < pow2 (- int k + 1)"
  proof -
    have "pow2 (- int k + 1) = 1 / 2 ^ (k - 1)"
    proof (cases "k = 1")
      case True
      then show ?thesis by (simp add: pow2_def)
    next
      case False
      with k have "nat (int k - 1) = k - 1" "\<not> (int k \<le> 1)" by simp_all
      then show ?thesis by (simp add: pow2_def)
    qed
    moreover have "1 / y < 1 / 2 ^ (k - 1)"
      using ky by (simp add: frac_less2)
    ultimately show ?thesis by (simp add: xy)
  qed
  from lower upper e show ?thesis by simp
qed

lemma round_even_error: "\<bar>of_int (round_even y) - y\<bar> \<le> 1 / 2"
  unfolding round_even_def Let_def by (auto; linarith)

lemma pow2_add_nat: "pow2 (a + int n) = pow2 a * 2 ^ n"
proof (induction n)
  case 0
  show ?case by simp
next
  case (Suc n)
  have "a + int (Suc n) = (a + int n) + 1" by simp
  then have "pow2 (a + int (Suc n)) = 2 * pow2 (a + int n)" by (simp only: pow2_Suc)
  then show ?case by (simp add: Suc.IH)
qed

lemma pow2_diff_52: "pow2 (e - 52) = pow2 e / 2 ^ 52"
  using pow2_add_nat [of "e - 52" 52] by simp

lemma round_double_half_ulp:
  assumes "x \<noteq> 0"
  shows "\<bar>round_double x - x\<bar> \<le> pow2 (max (binary_exponent x) (- 1022) - 52) / 2"
proof -
  define u where "u = pow2 (max (binary_exponent x) (- 1022) - 52)"
  define r where "r = real_of_int (round_even (x / u))"
  have u: "0 < u" unfolding u_def by (rule pow2_pos)
  have rd: "round_double x = r * u"
    using assms by (simp add: round_double_def u_def r_def Let_def)
  have "r * u - x = (r - x / u) * u"
    using u by (simp add: left_diff_distrib)
  then have "\<bar>round_double x - x\<bar> = \<bar>r - x / u\<bar> * \<bar>u\<bar>"
    by (simp only: rd abs_mult)
  also have "\<dots> = \<bar>r - x / u\<bar> * u" using u by simp
  also have "\<dots> \<le> 1 / 2 * u"
    using round_even_error [of "x / u"] u unfolding r_def by (intro mult_right_mono) simp_all
  finally show ?thesis unfolding u_def by simp
qed

lemma round_double_error: "\<bar>round_double x - x\<bar> \<le> \<bar>x\<bar> / 2 ^ 53 + pow2 (- 1075)"
proof (cases "x = 0")
  case True
  then show ?thesis using pow2_pos [of "- 1075"] by (simp add: round_double_def)
next
  case False
  define e where "e = max (binary_exponent x) (- 1022)"
  have half: "\<bar>round_double x - x\<bar> \<le> pow2 (e - 52) / 2"
    unfolding e_def by (rule round_double_half_ulp [OF False])
  have "pow2 (e - 52) / 2 \<le> \<bar>x\<bar> / 2 ^ 53 + pow2 (- 1075)"
  proof (cases "- 1022 \<le> binary_exponent x")
    case True
    then have "e = binary_exponent x" unfolding e_def by simp
    then have "pow2 (e - 52) = pow2 (binary_exponent x) / 2 ^ 52" by (simp only: pow2_diff_52)
    also have "\<dots> \<le> \<bar>x\<bar> / 2 ^ 52"
      using binary_exponent_bounds [OF False] by (simp add: divide_right_mono)
    finally have "pow2 (e - 52) / 2 \<le> \<bar>x\<bar> / 2 ^ 53" by simp
    then show ?thesis using pow2_pos [of "- 1075"] by linarith
  next
    case False
    then have "e - 52 = - 1075 + 1" unfolding e_def by simp
    then have "pow2 (e - 52) = 2 * pow2 (- 1075)" by (simp only: pow2_Suc)
    then show ?thesis by simp
  qed
  with half show ?thesis by linarith
qed

subsection \<open>Whole numbers in double arithmetic\<close>

lemma pow2_mono: "a \<le> b \<Longrightarrow> pow2 a \<le> pow2 b"
proof (induction "nat (b - a)" arbitrary: b)
  case 0
  then show ?case by simp
next
  case (Suc n)
  then have "n = nat ((b - 1) - a)" "a \<le> b - 1" by linarith+
  then have "pow2 a \<le> pow2 (b - 1)" by (rule Suc.hyps(1))
  also have "\<dots> \<le> pow2 b" using pow2_Suc [of "b - 1"] pow2_pos [of "b - 1"] by simp
  finally show ?case .
qed

lemma pow2_nat: "pow2 (int n) = 2 ^ n"
  by (simp add: pow2_def)

lemma pow2_neg_nat: "pow2 (- int n) = 1 / 2 ^ n"
proof (cases "n = 0")
  case True
  then show ?thesis by (simp add: pow2_def)
next
  case False
  then have "\<not> 0 \<le> - int n" "nat (- (- int n)) = n" by simp_all
  then show ?thesis by (simp only: pow2_def if_False)
qed

lemma round_even_of_int: "round_even (of_int m) = m"
  by (simp add: round_even_def)

lemma round_even_le: "y \<le> of_int m \<Longrightarrow> round_even y \<le> m"
proof -
  assume "y \<le> of_int m"
  then have "\<lceil>y\<rceil> \<le> m" by (simp add: ceiling_le_iff)
  moreover have "round_even y \<le> \<lceil>y\<rceil>"
    unfolding round_even_def Let_def by (auto; linarith)
  ultimately show ?thesis by simp
qed

lemma round_even_gt: "of_int m + 1 / 2 < y \<Longrightarrow> m < round_even y"
proof -
  assume a: "of_int m + 1 / 2 < y"
  have "\<bar>of_int (round_even y) - y\<bar> \<le> 1 / 2" by (rule round_even_error)
  with a have "of_int m < (of_int (round_even y) :: real)" by linarith
  then show ?thesis by simp
qed

text \<open>The spacing of the doubles around a positive number below \<open>2 ^ 52\<close>.\<close>

lemma round_double_spacing:
  assumes "0 < q" and "q < 2 ^ 52" and "1 / 2 ^ 52 \<le> q"
  obtains j where "round_double q = of_int (round_even (q * 2 ^ j)) / 2 ^ j"
    and "1 / 2 ^ j \<le> q / 2 ^ 52" and "1 \<le> j"
proof -
  define e where "e = binary_exponent q"
  from assms(1) have nz: "q \<noteq> 0" by simp
  from binary_exponent_bounds [OF nz] assms(1)
  have b: "pow2 e \<le> q" "q < pow2 (e + 1)" unfolding e_def by simp_all
  have hi: "e \<le> 51"
  proof (rule ccontr)
    assume "\<not> e \<le> 51"
    then have "pow2 52 \<le> pow2 e" by (intro pow2_mono) simp
    with b(1) assms(2) pow2_nat [of 52] show False by simp
  qed
  have lo: "- 53 \<le> e"
  proof (rule ccontr)
    assume "\<not> - 53 \<le> e"
    then have "pow2 (e + 1) \<le> pow2 (- 53)" by (intro pow2_mono) simp
    moreover have "pow2 (- 53) = 1 / 2 ^ 53" using pow2_neg_nat [of 53] by simp
    moreover have "(1 :: real) / 2 ^ 53 \<le> 1 / 2 ^ 52" by simp
    ultimately show False using b(2) assms(3) by linarith
  qed
  define j where "j = nat (52 - e)"
  from hi lo have j: "1 \<le> j" "e - 52 = - int j" unfolding j_def by simp_all
  have u: "pow2 (e - 52) = 1 / 2 ^ j" unfolding j(2) by (rule pow2_neg_nat)
  from lo have "max e (- 1022) = e" by simp
  then have rd: "round_double q = of_int (round_even (q * 2 ^ j)) / 2 ^ j"
    using nz by (simp add: round_double_def e_def [symmetric] u Let_def)
  have "pow2 (e - 52) = pow2 e / 2 ^ 52" by (rule pow2_diff_52)
  with b(1) have sp: "1 / 2 ^ j \<le> q / 2 ^ 52"
    unfolding u [symmetric] by (simp add: divide_right_mono)
  from rd sp j(1) show ?thesis by (rule that)
qed

text \<open>Integers below \<open>2 ^ 53\<close> are doubles.\<close>

lemma real_less_power2: "n < 2 ^ k \<Longrightarrow> real n < 2 ^ k"
  using of_nat_less_iff [of n "2 ^ k", where ?'a = real] by simp

lemma round_double_of_nat:
  assumes "n < 2 ^ 53"
  shows "round_double (real n) = real n"
proof (cases "n = 0")
  case True
  then show ?thesis by (simp add: round_double_def)
next
  case False
  define x where "x = real n"
  define e where "e = binary_exponent x"
  from False have x: "1 \<le> x" "x \<noteq> 0" "\<bar>x\<bar> = x" unfolding x_def by simp_all
  from binary_exponent_bounds [OF x(2)] x(3)
  have b: "pow2 e \<le> x" "x < pow2 (e + 1)" unfolding e_def by simp_all
  from assms have x53: "x < 2 ^ 53" unfolding x_def by (rule real_less_power2)
  have hi: "e \<le> 52"
  proof (rule ccontr)
    assume "\<not> e \<le> 52"
    then have "pow2 53 \<le> pow2 e" by (intro pow2_mono) simp
    with b(1) x53 pow2_nat [of 53] show False by simp
  qed
  have lo: "0 \<le> e"
  proof (rule ccontr)
    assume "\<not> 0 \<le> e"
    then have "pow2 (e + 1) \<le> pow2 0" by (intro pow2_mono) simp
    with b(2) x(1) pow2_nat [of 0] show False by simp
  qed
  define j where "j = nat (52 - e)"
  from hi lo have j: "e - 52 = - int j" unfolding j_def by simp
  have u: "pow2 (e - 52) = 1 / 2 ^ j" unfolding j by (rule pow2_neg_nat)
  from lo have m: "max e (- 1022) = e" by simp
  have "x / (1 / 2 ^ j) = of_int (int n * 2 ^ j)" unfolding x_def by simp
  then have "round_even (x / (1 / 2 ^ j)) = int n * 2 ^ j"
    by (simp only: round_even_of_int)
  then have "round_double x = of_int (int n * 2 ^ j) * (1 / 2 ^ j)"
    using x(2) by (simp add: round_double_def e_def [symmetric] m u Let_def)
  then show ?thesis unfolding x_def by simp
qed

lemma foldl_round_double_nat:
  "a + sum_list (map w ks) < 2 ^ 53 \<Longrightarrow>
     foldl (\<lambda>s k. jadd round_double s (real (w k))) (real a) ks
       = real (a + sum_list (map w ks))"
proof (induction ks arbitrary: a)
  case Nil
  then show ?case by simp
next
  case (Cons k ks)
  from Cons.prems have small: "a + w k < 2 ^ 53" "(a + w k) + sum_list (map w ks) < 2 ^ 53"
    by simp_all
  have "jadd round_double (real a) (real (w k)) = real (a + w k)"
    using round_double_of_nat [OF small(1)] by (simp add: jadd_def)
  then show ?case using Cons.IH [OF small(2)] by (simp add: add.assoc)
qed

text \<open>
  Comparing a natural number with the rounded quotient of two natural numbers gives the
  same answer as comparing it with the quotient itself, for numbers below \<open>2 ^ 52\<close>.
\<close>

lemma ge_rounded_quotient:
  assumes "1 \<le> N" and "vsum < 2 ^ 52" and "N < 2 ^ 52"
  shows "real v \<ge> jdiv round_double (real vsum) (real N) \<longleftrightarrow> real v \<ge> real vsum / real N"
proof (cases "vsum = 0")
  case True
  then show ?thesis by (simp add: jdiv_def round_double_def)
next
  case False
  define q where "q = real vsum / real N"
  from False assms(1) have qpos: "0 < q" unfolding q_def by simp
  have S52: "real vsum < 2 ^ 52" using assms(2) by (rule real_less_power2)
  have N52: "real N < 2 ^ 52" using assms(3) by (rule real_less_power2)
  have N1: "1 \<le> real N" "0 < real N" using assms(1) by simp_all
  have qN: "q * real N = real vsum" unfolding q_def using N1(2) by simp
  have "q \<le> q * real N" using qpos N1(1) by (simp add: mult_le_cancel_left1)
  with qN S52 have qhi: "q < 2 ^ 52" by simp
  have "1 \<le> real vsum" using False by simp
  then have "1 / real N \<le> q" unfolding q_def using N1(2) by (simp add: divide_right_mono)
  moreover have "1 / 2 ^ 52 < 1 / real N" using N52 N1(2) by (simp add: frac_less2)
  ultimately have qlo: "1 / 2 ^ 52 \<le> q" by simp
  from round_double_spacing [OF qpos qhi qlo]
  obtain j where rd: "round_double q = of_int (round_even (q * 2 ^ j)) / 2 ^ j"
    and sp: "1 / 2 ^ j \<le> q / 2 ^ 52" and j: "1 \<le> j" by blast
  have vj: "real v * 2 ^ j = of_int (int v * 2 ^ j)" by simp
  have p: "(0 :: real) < 2 ^ j" by simp
  show ?thesis
  proof
    assume "real vsum / real N \<le> real v"
    then have "q \<le> real v" unfolding q_def .
    then have "q * 2 ^ j \<le> real v * 2 ^ j" using p by (simp only: mult_le_cancel_right_pos)
    then have "q * 2 ^ j \<le> of_int (int v * 2 ^ j)" unfolding vj .
    then have "round_even (q * 2 ^ j) \<le> int v * 2 ^ j" by (rule round_even_le)
    then have "real_of_int (round_even (q * 2 ^ j)) \<le> real v * 2 ^ j"
      unfolding vj by (simp only: of_int_le_iff)
    then have "round_double q \<le> real v" unfolding rd using p by (simp only: pos_divide_le_eq)
    then show "jdiv round_double (real vsum) (real N) \<le> real v"
      by (simp add: jdiv_def q_def)
  next
    assume le: "jdiv round_double (real vsum) (real N) \<le> real v"
    show "real vsum / real N \<le> real v"
    proof (rule ccontr)
      assume "\<not> real vsum / real N \<le> real v"
      then have "real v < real vsum / real N" by simp
      then have "real v * real N < real vsum" using N1(2) by (simp only: pos_less_divide_eq)
      then have "real (v * N) < real vsum" by simp
      then have "v * N < vsum" by (simp only: of_nat_less_iff)
      then have "v * N + 1 \<le> vsum" by simp
      then have "real (v * N + 1) \<le> real vsum" by (rule of_nat_mono)
      then have "(real v + 1 / real N) * real N \<le> q * real N"
        unfolding qN using N1(2) by (simp add: distrib_right)
      then have step: "real v + 1 / real N \<le> q"
        using N1(2) by (simp only: mult_le_cancel_right_pos)
      have "q * real N < 2 ^ 52" unfolding qN by (rule S52)
      then have "q / 2 ^ 52 < 1 / real N"
        using N1(2) by (simp add: divide_less_eq pos_less_divide_eq mult.commute)
      with step sp have gap: "real v + 1 / 2 ^ j < q" by linarith
      then have "(real v + 1 / 2 ^ j) * 2 ^ j < q * 2 ^ j"
        using p by (simp only: mult_less_cancel_right_pos)
      then have "real v * 2 ^ j + 1 < q * 2 ^ j"
        by (simp add: distrib_right)
      then have "of_int (int v * 2 ^ j) + 1 / 2 < q * 2 ^ j" unfolding vj by linarith
      then have "int v * 2 ^ j < round_even (q * 2 ^ j)" by (rule round_even_gt)
      then have "real v * 2 ^ j < real_of_int (round_even (q * 2 ^ j))"
        unfolding vj by (simp only: of_int_less_iff)
      then have "real v < round_double q" unfolding rd using p by (simp only: pos_less_divide_eq)
      with le show False by (simp add: jdiv_def q_def)
    qed
  qed
qed

section \<open>Theorems about the projection engine\<close>

lemma jops_exact:
  "jadd exact x y = x + y" "jsub exact x y = x - y"
  "jmul exact x y = x * y" "jdiv exact x y = x / y"
  by (simp_all add: jadd_def jsub_def jmul_def jdiv_def exact_def)

subsection \<open>Evaluations in double arithmetic\<close>

lemma round_double_literals:
  "round_double (2009 / 10) = 7068540352646349 / 35184372088832"
  "round_double (3209 / 20) = 2822666250826547 / 17592186044416"
  "round_double (4209 / 20) = 3702275553047347 / 17592186044416"
  "round_double (1809 / 10) = 6364852910869709 / 35184372088832"
  "round_double (3009 / 20) = 2646744390382387 / 17592186044416"
  "round_double (4009 / 20) = 3526353692603187 / 17592186044416"
  "round_double (191 / 500) = 3440750115311059 / 9007199254740992"
  by code_simp+

lemma scenario_A_double:
  "logic_core round_double scenario_A_inputs R05 (initial_result round_double)
     = \<lparr>isValid = True, error = None, w1Height = 50, w2RetracementPct = 60, w3Min = 170,
        w3Gold = 7068540352646349 / 35184372088832,
        w4Target = 2822666250826547 / 17592186044416,
        w5Target = 3702275553047347 / 17592186044416,
        selectedRatio = 1 / 2, usingManualP3 = False\<rparr>"
  by code_simp

lemma scenario_A_exact:
  "logic_core exact scenario_A_inputs R05 (initial_result exact)
     = \<lparr>isValid = True, error = None, w1Height = 50, w2RetracementPct = 60, w3Min = 170,
        w3Gold = 2009 / 10, w4Target = 16045 / 100, w5Target = 21045 / 100,
        selectedRatio = 1 / 2, usingManualP3 = False\<rparr>"
  by (simp add: logic_core_def scenario_A_inputs_def jops_exact ratio_value_def exact_def)

lemma rounding_inputs_double:
  "logic_core round_double rounding_inputs R05 (initial_result round_double)
     = \<lparr>isValid = True, error = None, w1Height = 10, w2RetracementPct = 50, w3Min = 25,
        w3Gold = 4388194886919127 / 140737488355328,
        w4Target = 6499257212249047 / 281474976710656,
        w5Target = 1164250872419451 / 35184372088832,
        selectedRatio = 1 / 2, usingManualP3 = False\<rparr>"
  by code_simp

lemma rounding_inputs_differences:
  "round_double (2814749767106561 / 281474976710656) = 2814749767106561 / 281474976710656"
  "round_double 10 = 10"
  by code_simp+

subsection \<open>Validity and the previous result\<close>

lemma isValid_logic_core_prev:
  "isValid (logic_core rnd inputs fibRatio prev) = isValid (logic_core rnd' inputs fibRatio' prev')"
  by (simp add: logic_core_def Let_def split: option.splits)

lemma invalid_keeps_numeric_fields:
  "\<not> isValid (logic_core rnd inputs fibRatio prev) \<Longrightarrow>
     numeric_fields (logic_core rnd inputs fibRatio prev) = numeric_fields prev"
  by (auto simp add: logic_core_def numeric_fields_def Let_def split: option.splits if_splits)

lemma run_effects_append:
  "run_effects rnd (xs @ ys) res = run_effects rnd ys (run_effects rnd xs res)"
  by (induction xs arbitrary: res) auto

lemma run_effects_failing:
  "\<forall>e \<in> set failing. \<not> isValid (logic_core rnd (fst e) (snd e) (initial_result rnd)) \<Longrightarrow>
     numeric_fields (run_effects rnd failing res) = numeric_fields res"
proof (induction failing arbitrary: res)
  case Nil
  then show ?case by simp
next
  case (Cons e rest)
  obtain inputs fibRatio where e: "e = (inputs, fibRatio)" by (cases e)
  from Cons.prems e have "\<not> isValid (logic_core rnd inputs fibRatio (initial_result rnd))"
    by simp
  then have "\<not> isValid (logic_core rnd inputs fibRatio res)"
    using isValid_logic_core_prev [of rnd inputs fibRatio res rnd fibRatio "initial_result rnd"]
    by simp
  then have "numeric_fields (logic_core rnd inputs fibRatio res) = numeric_fields res"
    by (rule invalid_keeps_numeric_fields)
  moreover from Cons.prems
  have "numeric_fields (run_effects rnd rest (logic_core rnd inputs fibRatio res))
          = numeric_fields (logic_core rnd inputs fibRatio res)"
    by (intro Cons.IH) simp
  ultimately show ?case by (simp add: e)
qed

lemma double_sum_difference_bound:
  "\<bar>round_double (w4 + round_double (a - b)) - w4 - (a - b)\<bar>
     \<le> (\<bar>w4 + round_double (a - b)\<bar> + \<bar>a - b\<bar>) / 2 ^ 53 + 2 * pow2 (- 1075)"
proof -
  define h where "h = round_double (a - b)"
  have "\<bar>round_double (w4 + h) - (w4 + h)\<bar> \<le> \<bar>w4 + h\<bar> / 2 ^ 53 + pow2 (- 1075)"
    by (rule round_double_error)
  moreover have "\<bar>h - (a - b)\<bar> \<le> \<bar>a - b\<bar> / 2 ^ 53 + pow2 (- 1075)"
    unfolding h_def by (rule round_double_error)
  ultimately have "\<bar>round_double (w4 + h) - w4 - (a - b)\<bar>
      \<le> \<bar>w4 + h\<bar> / 2 ^ 53 + \<bar>a - b\<bar> / 2 ^ 53 + 2 * pow2 (- 1075)"
    by linarith
  then show ?thesis unfolding h_def by (simp add: add_divide_distrib)
qed

subsection \<open>The range of the operations\<close>

text \<open>
  For prices of magnitude at most \<open>2 ^ 1000\<close> every operation on the way to \<open>w4Target\<close> and
  \<open>w5Target\<close> stays below \<open>2774 * 2 ^ 1000\<close>, far from overflow.
\<close>

lemma round_double_abs_le: "\<bar>round_double x\<bar> \<le> 2 * \<bar>x\<bar> + 1"
proof -
  have "pow2 (- 1075) \<le> pow2 0" by (rule pow2_mono) simp
  then have small: "pow2 (- 1075) \<le> 1" by (simp add: pow2_def)
  have "\<bar>x\<bar> / 2 ^ 53 \<le> \<bar>x\<bar>" by (simp add: divide_le_eq)
  with round_double_error [of x] small show ?thesis by linarith
qed

lemma round_double_scaled:
  assumes "\<bar>x\<bar> \<le> c * b" and "1 \<le> b" and "0 \<le> c"
  shows "\<bar>round_double x\<bar> \<le> (2 * c + 1) * b"
proof -
  have "\<bar>round_double x\<bar> \<le> 2 * \<bar>x\<bar> + 1" by (rule round_double_abs_le)
  also have "\<dots> \<le> 2 * (c * b) + b" using assms(1,2) by linarith
  also have "\<dots> = (2 * c + 1) * b" by (simp add: algebra_simps)
  finally show ?thesis .
qed

lemma product_scaled:
  fixes x y :: real
  assumes "\<bar>x\<bar> \<le> c * b" and "\<bar>y\<bar> \<le> d" and "0 \<le> c" and "0 \<le> b"
  shows "\<bar>x * y\<bar> \<le> (c * d) * b"
proof -
  have "\<bar>x * y\<bar> = \<bar>x\<bar> * \<bar>y\<bar>" by (rule abs_mult)
  also have "\<dots> \<le> (c * b) * d"
    using assms by (intro mult_mono) simp_all
  finally show ?thesis by (simp add: mult_ac)
qed

lemma literal_bounds:
  "\<bar>round_double (1618 / 1000)\<bar> \<le> 5" "\<bar>ratio_value round_double fibRatio\<bar> \<le> 3"
proof -
  show "\<bar>round_double (1618 / 1000)\<bar> \<le> 5"
    using round_double_abs_le [of "1618 / 1000"] by simp
  show "\<bar>ratio_value round_double fibRatio\<bar> \<le> 3"
    using round_double_abs_le [of "382 / 1000"] round_double_abs_le [of "5 / 10"]
      round_double_abs_le [of "618 / 1000"]
    by (cases fibRatio) (simp_all add: ratio_value_def)
qed

lemma target_operations_bounded:
  assumes "1 \<le> b" and "\<bar>valP0\<bar> \<le> b" and "\<bar>valP1\<bar> \<le> b" and "\<bar>valP2\<bar> \<le> b"
    and "\<forall>v. valP3 = Some v \<longrightarrow> \<bar>v\<bar> \<le> b"
  shows "list_all (\<lambda>x. \<bar>x\<bar> \<le> 2774 * b) (target_operations valP0 valP1 valP2 valP3 fibRatio)"
proof -
  define h where "h = jsub round_double valP1 valP0"
  define ext where "ext = jmul round_double h (round_double (1618 / 1000))"
  define gold where "gold = jadd round_double valP2 ext"
  define peak where "peak = (case valP3 of Some v \<Rightarrow> v | None \<Rightarrow> gold)"
  define w3h where "w3h = jsub round_double peak valP2"
  define retr where "retr = jmul round_double w3h (ratio_value round_double fibRatio)"
  define w4 where "w4 = jsub round_double peak retr"
  note b = assms(1)
  have o1: "\<bar>valP1 - valP0\<bar> \<le> 2 * b" using assms(2,3) by linarith
  from round_double_scaled [OF o1 b] have h: "\<bar>h\<bar> \<le> 5 * b"
    unfolding h_def jsub_def by simp
  from product_scaled [OF h literal_bounds(1)] b
  have o2: "\<bar>h * round_double (1618 / 1000)\<bar> \<le> 25 * b" by simp
  from round_double_scaled [OF o2 b] have ext: "\<bar>ext\<bar> \<le> 51 * b"
    unfolding ext_def jmul_def by simp
  have o3: "\<bar>valP2 + ext\<bar> \<le> 52 * b" using ext assms(4) by linarith
  from round_double_scaled [OF o3 b] have gold: "\<bar>gold\<bar> \<le> 105 * b"
    unfolding gold_def jadd_def by simp
  have peak: "\<bar>peak\<bar> \<le> 105 * b"
  proof (cases valP3)
    case None
    with gold show ?thesis by (simp add: peak_def)
  next
    case (Some v)
    with assms(5) have "\<bar>v\<bar> \<le> b" by simp
    with b Some show ?thesis by (simp add: peak_def)
  qed
  have o4: "\<bar>peak - valP2\<bar> \<le> 106 * b" using peak assms(4) by linarith
  from round_double_scaled [OF o4 b] have w3h: "\<bar>w3h\<bar> \<le> 213 * b"
    unfolding w3h_def jsub_def by simp
  from product_scaled [OF w3h literal_bounds(2) [of fibRatio]] b
  have o5: "\<bar>w3h * ratio_value round_double fibRatio\<bar> \<le> 639 * b" by simp
  from round_double_scaled [OF o5 b] have retr: "\<bar>retr\<bar> \<le> 1279 * b"
    unfolding retr_def jmul_def by simp
  have o6: "\<bar>peak - retr\<bar> \<le> 1384 * b" using peak retr by linarith
  from round_double_scaled [OF o6 b] have w4: "\<bar>w4\<bar> \<le> 2769 * b"
    unfolding w4_def jsub_def by simp
  have o7: "\<bar>w4 + h\<bar> \<le> 2774 * b" using w4 h by linarith
  have ops: "target_operations valP0 valP1 valP2 valP3 fibRatio
      = [valP1 - valP0, h * round_double (1618 / 1000), valP2 + ext, peak - valP2,
         w3h * ratio_value round_double fibRatio, peak - retr, w4 + h]"
    unfolding target_operations_def Let_def w4_def retr_def w3h_def peak_def gold_def ext_def
      h_def by (rule refl)
  from o1 o2 o3 o4 o5 o6 o7 b show ?thesis unfolding ops by simp
qed

lemma range_of_bound: "\<bar>x\<bar> \<le> 2774 * 2 ^ 1000 \<Longrightarrow> in_double_range x"
  by (simp add: in_double_range_def)

lemma target_operations_in_range:
  assumes "\<bar>valP0\<bar> \<le> 2 ^ 1000" and "\<bar>valP1\<bar> \<le> 2 ^ 1000" and "\<bar>valP2\<bar> \<le> 2 ^ 1000"
    and "\<forall>v. valP3 = Some v \<longrightarrow> \<bar>v\<bar> \<le> 2 ^ 1000"
  shows "list_all in_double_range (target_operations valP0 valP1 valP2 valP3 fibRatio)"
proof -
  have "(1 :: real) \<le> 2 ^ 1000" by simp
  from target_operations_bounded [OF this assms]
  have "list_all (\<lambda>x. \<bar>x\<bar> \<le> 2774 * 2 ^ 1000)
          (target_operations valP0 valP1 valP2 valP3 fibRatio)" .
  then show ?thesis
    unfolding list_all_iff using range_of_bound by blast
qed

lemma targets_from_operations:
  assumes "p0 inputs = Some valP0" and "p1 inputs = Some valP1" and "p2 inputs = Some valP2"
    and "valP0 < valP2" and "valP2 < valP1"
    and "\<forall>v. p3 inputs = Some v \<longrightarrow> valP2 < v"
  shows "w4Target (logic_core round_double inputs fibRatio prev)
           = round_double (target_operations valP0 valP1 valP2 (p3 inputs) fibRatio ! 5)"
    and "w5Target (logic_core round_double inputs fibRatio prev)
           = round_double (target_operations valP0 valP1 valP2 (p3 inputs) fibRatio ! 6)"
  using assms
  by (cases "p3 inputs";
      simp add: logic_core_def target_operations_def Let_def jadd_def jsub_def jmul_def)+

subsection \<open>The claims\<close>

text \<open>
  Claim C1. For every input with \<open>P0 < P2 < P1\<close>, every ratio of the three and an optional
  \<open>P3 > P2\<close>, the engine returns a valid result whose fields are: \<open>w1Height = P1 - P0\<close>,
  \<open>w2RetracementPct = (P1 - P2) / (P1 - P0) * 100\<close>, \<open>w3Min = P2 + (P1 - P0)\<close>,
  \<open>w3Gold = P2 + (P1 - P0) * 1.618\<close>,
  \<open>w4Target = activeW3Peak - (activeW3Peak - P2) * r\<close> with \<open>activeW3Peak\<close> the supplied
  \<open>P3\<close> or else \<open>w3Gold\<close>, \<open>w5Target = w4Target + (P1 - P0)\<close>, \<open>selectedRatio = r\<close>, and
  \<open>usingManualP3\<close> holds iff \<open>P3\<close> is supplied. Each operation is the one of JavaScript
  (\<open>jadd\<close>, \<open>jsub\<close>, \<open>jmul\<close>, \<open>jdiv\<close>), for every rounding function.
\<close>

theorem projection_formulas:
  assumes "p0 inputs = Some valP0" and "p1 inputs = Some valP1" and "p2 inputs = Some valP2"
    and "valP0 < valP2" and "valP2 < valP1"
    and "\<forall>v. p3 inputs = Some v \<longrightarrow> valP2 < v"
  shows "let res = logic_core rnd inputs fibRatio prev;
             r = ratio_value rnd fibRatio;
             activeW3Peak = (case p3 inputs of Some v \<Rightarrow> v | None \<Rightarrow> w3Gold res)
         in isValid res \<and> error res = None
          \<and> w1Height res = jsub rnd valP1 valP0
          \<and> w2RetracementPct res
               = jmul rnd (jdiv rnd (jsub rnd valP1 valP2) (jsub rnd valP1 valP0)) 100
          \<and> w3Min res = jadd rnd valP2 (jsub rnd valP1 valP0)
          \<and> w3Gold res = jadd rnd valP2 (jmul rnd (jsub rnd valP1 valP0) (rnd (1618 / 1000)))
          \<and> w4Target res
               = jsub rnd activeW3Peak (jmul rnd (jsub rnd activeW3Peak valP2) r)
          \<and> w5Target res = jadd rnd (w4Target res) (jsub rnd valP1 valP0)
          \<and> selectedRatio res = r
          \<and> (usingManualP3 res \<longleftrightarrow> p3 inputs \<noteq> None)"
  using assms by (cases "p3 inputs") (simp_all add: logic_core_def Let_def)

text \<open>
  Scenario B of the specification, in exact arithmetic: \<open>P0 = 100\<close>, \<open>P1 = 150\<close>,
  \<open>P2 = 120\<close>, \<open>P3 = 200\<close>, ratio 0.382.
\<close>

theorem projection_formulas_witness:
  "(100 :: real) < 120 \<and> (120 :: real) < 150 \<and> (120 :: real) < 200
   \<and> isValid (logic_core exact scenario_B_inputs R0382 (initial_result exact))
   \<and> w1Height (logic_core exact scenario_B_inputs R0382 (initial_result exact)) = 50
   \<and> w2RetracementPct (logic_core exact scenario_B_inputs R0382 (initial_result exact)) = 60
   \<and> w3Min (logic_core exact scenario_B_inputs R0382 (initial_result exact)) = 170
   \<and> w3Gold (logic_core exact scenario_B_inputs R0382 (initial_result exact)) = 2009 / 10
   \<and> w4Target (logic_core exact scenario_B_inputs R0382 (initial_result exact)) = 16944 / 100
   \<and> w5Target (logic_core exact scenario_B_inputs R0382 (initial_result exact)) = 21944 / 100
   \<and> usingManualP3 (logic_core exact scenario_B_inputs R0382 (initial_result exact))"
  using projection_formulas [of scenario_B_inputs 100 150 120 exact R0382 "initial_result exact"]
  by (simp add: scenario_B_inputs_def Let_def jops_exact ratio_value_def exact_def)

text \<open>
  Claim C2. The four validations are checked in the order \<open>P1 > P0\<close>, \<open>P2 > P0\<close>,
  \<open>P2 < P1\<close>, \<open>P3 > P2\<close> (only when \<open>P3\<close> is supplied). For every complete input the reason
  reported is the one of the first check that fails, the result is valid iff none fails, and a
  failure is returned as the previous result with \<open>isValid = False\<close> and that reason: a
  value, never an exception. The failing result depends on nothing but the first failing
  check, so no later check takes part in it. An incomplete input is reported in the same
  way, as invalid and without a reason.
\<close>

theorem validation_order:
  "case (p0 inputs, p1 inputs, p2 inputs) of
     (Some valP0, Some valP1, Some valP2) \<Rightarrow>
       (let res = logic_core rnd inputs fibRatio prev;
            failure = first_failure (validation_checks valP0 valP1 valP2 (p3 inputs))
        in error res = failure \<and> (isValid res \<longleftrightarrow> failure = None)
         \<and> (failure \<noteq> None \<longrightarrow> res = prev\<lparr>isValid := False, error := failure\<rparr>))
   | _ \<Rightarrow> logic_core rnd inputs fibRatio prev = prev\<lparr>isValid := False, error := None\<rparr>"
proof (cases "p0 inputs")
  case None
  then show ?thesis by (simp add: logic_core_def)
next
  case p0: (Some valP0)
  show ?thesis
  proof (cases "p1 inputs")
    case None
    with p0 show ?thesis by (simp add: logic_core_def)
  next
    case p1: (Some valP1)
    show ?thesis
    proof (cases "p2 inputs")
      case None
      with p0 p1 show ?thesis by (simp add: logic_core_def)
    next
      case p2: (Some valP2)
      with p0 p1 show ?thesis
        by (cases "p3 inputs")
           (simp_all add: logic_core_def first_failure_def validation_checks_def Let_def)
    qed
  qed
qed

text \<open>
  Scenario C of the specification, \<open>P2 = 95\<close> below \<open>P0 = 100\<close>, and the empty input.
\<close>

theorem validation_order_witness:
  "first_failure (validation_checks 100 150 95 None) = Some Wave2BreaksStart
   \<and> logic_core round_double scenario_C_inputs R05 (initial_result round_double)
       = (initial_result round_double)\<lparr>isValid := False, error := Some Wave2BreaksStart\<rparr>
   \<and> logic_core round_double empty_inputs R05 (initial_result round_double)
       = (initial_result round_double)\<lparr>isValid := False, error := None\<rparr>"
  using validation_order [where inputs = scenario_C_inputs and rnd = round_double
        and fibRatio = R05 and prev = "initial_result round_double"]
    validation_order [where inputs = empty_inputs and rnd = round_double
        and fibRatio = R05 and prev = "initial_result round_double"]
  by (simp add: scenario_C_inputs_def empty_inputs_def first_failure_def validation_checks_def
      Let_def)

text \<open>
  Claim C3 states \<open>w3Gold = 180.9\<close>, \<open>w4Target = 150.45\<close> and \<open>w5Target = 200.45\<close> for
  \<open>P0 = 100\<close>, \<open>P1 = 150\<close>, \<open>P2 = 120\<close>, ratio 0.5 and no \<open>P3\<close>. The engine returns none of
  the three, neither in double arithmetic nor in exact arithmetic.
\<close>

theorem scenario_A_counterexample:
  "w3Gold (logic_core round_double scenario_A_inputs R05 (initial_result round_double))
     \<noteq> round_double (1809 / 10)
   \<and> w4Target (logic_core round_double scenario_A_inputs R05 (initial_result round_double))
     \<noteq> round_double (15045 / 100)
   \<and> w5Target (logic_core round_double scenario_A_inputs R05 (initial_result round_double))
     \<noteq> round_double (20045 / 100)
   \<and> w3Gold (logic_core exact scenario_A_inputs R05 (initial_result exact)) \<noteq> 1809 / 10
   \<and> w4Target (logic_core exact scenario_A_inputs R05 (initial_result exact)) \<noteq> 15045 / 100
   \<and> w5Target (logic_core exact scenario_A_inputs R05 (initial_result exact)) \<noteq> 20045 / 100"
  by (simp add: scenario_A_double scenario_A_exact round_double_literals)

text \<open>
  Claim C3, amended. On \<open>P0 = 100\<close>, \<open>P1 = 150\<close>, \<open>P2 = 120\<close>, ratio 0.5 and no \<open>P3\<close> the
  engine returns \<open>w1Height = 50\<close>, \<open>w2RetracementPct = 60\<close>, \<open>w3Min = 170\<close>,
  \<open>w3Gold = 200.9\<close>, \<open>w4Target = 160.45\<close> and \<open>w5Target = 210.45\<close>: in double arithmetic
  the doubles that these three decimal literals denote, in exact arithmetic the numbers
  themselves.
\<close>

theorem scenario_A_values:
  "logic_core round_double scenario_A_inputs R05 (initial_result round_double)
     = \<lparr>isValid = True, error = None, w1Height = 50, w2RetracementPct = 60, w3Min = 170,
        w3Gold = round_double (2009 / 10), w4Target = round_double (16045 / 100),
        w5Target = round_double (21045 / 100), selectedRatio = 1 / 2, usingManualP3 = False\<rparr>
   \<and> logic_core exact scenario_A_inputs R05 (initial_result exact)
     = \<lparr>isValid = True, error = None, w1Height = 50, w2RetracementPct = 60, w3Min = 170,
        w3Gold = 2009 / 10, w4Target = 16045 / 100,
        w5Target = 21045 / 100, selectedRatio = 1 / 2, usingManualP3 = False\<rparr>"
  by (simp add: scenario_A_double scenario_A_exact round_double_literals)

text \<open>
  Claim C5 states that \<open>w5Target - w4Target\<close> equals \<open>P1 - P0\<close> exactly. In double
  arithmetic it does not: for \<open>P0 = 10\<close>, \<open>P1 = 20\<close>, \<open>P2 = 15\<close>, ratio 0.5 and no \<open>P3\<close> the
  two results differ by \<open>10 + 2 ^ - 48\<close>, whether the difference is taken exactly or by the
  subtraction of JavaScript.
\<close>

theorem w5_minus_w4_counterexample:
  "w5Target (logic_core round_double rounding_inputs R05 (initial_result round_double))
     - w4Target (logic_core round_double rounding_inputs R05 (initial_result round_double))
     \<noteq> 20 - 10
   \<and> jsub round_double
        (w5Target (logic_core round_double rounding_inputs R05 (initial_result round_double)))
        (w4Target (logic_core round_double rounding_inputs R05 (initial_result round_double)))
     \<noteq> jsub round_double 20 10"
  by (simp add: rounding_inputs_double jsub_def rounding_inputs_differences)

text \<open>
  Claim C5, amended. For all \<open>P0 < P2 < P1\<close>, every ratio and an optional \<open>P3 > P2\<close>:
  \<open>w4Target = activeW3Peak - (activeW3Peak - P2) * r\<close> and
  \<open>w5Target = w4Target + (P1 - P0)\<close>, each operation being the one of JavaScript. The
  difference \<open>w5Target - w4Target\<close> equals \<open>P1 - P0\<close> exactly in exact arithmetic. In double
  arithmetic, for prices of magnitude at most \<open>2 ^ 1000\<close>, no operation overflows and the
  difference equals \<open>P1 - P0\<close> up to the rounding of one addition and one subtraction.
\<close>

theorem wave4_wave5_relation:
  assumes "p0 inputs = Some valP0" and "p1 inputs = Some valP1" and "p2 inputs = Some valP2"
    and "valP0 < valP2" and "valP2 < valP1"
    and "\<forall>v. p3 inputs = Some v \<longrightarrow> valP2 < v"
  shows "let res = logic_core rnd inputs fibRatio prev;
             ideal = logic_core exact inputs fibRatio prev;
             dbl = logic_core round_double inputs fibRatio prev;
             operations = target_operations valP0 valP1 valP2 (p3 inputs) fibRatio;
             r = ratio_value rnd fibRatio;
             activeW3Peak = (case p3 inputs of Some v \<Rightarrow> v | None \<Rightarrow> w3Gold res)
         in w4Target res = jsub rnd activeW3Peak (jmul rnd (jsub rnd activeW3Peak valP2) r)
          \<and> w5Target res = jadd rnd (w4Target res) (jsub rnd valP1 valP0)
          \<and> w5Target ideal - w4Target ideal = valP1 - valP0
          \<and> (\<bar>valP0\<bar> \<le> 2 ^ 1000 \<and> \<bar>valP1\<bar> \<le> 2 ^ 1000 \<and> \<bar>valP2\<bar> \<le> 2 ^ 1000
               \<and> (\<forall>v. p3 inputs = Some v \<longrightarrow> \<bar>v\<bar> \<le> 2 ^ 1000) \<longrightarrow>
                list_all in_double_range operations
              \<and> w4Target dbl = round_double (operations ! 5)
              \<and> w5Target dbl = round_double (operations ! 6)
              \<and> \<bar>w5Target dbl - w4Target dbl - (valP1 - valP0)\<bar>
                  \<le> (\<bar>w4Target dbl + w1Height dbl\<bar> + \<bar>valP1 - valP0\<bar>) / 2 ^ 53
                    + 2 * pow2 (- 1075))"
proof -
  have valid: "\<not> valP1 \<le> valP0" "\<not> valP2 \<le> valP0" "\<not> valP1 \<le> valP2"
    "\<not> (case p3 inputs of Some v \<Rightarrow> v \<le> valP2 | None \<Rightarrow> False)"
    using assms by (auto split: option.splits)
  have w5: "w5Target (logic_core f inputs fibRatio prev)
              = jadd f (w4Target (logic_core f inputs fibRatio prev)) (jsub f valP1 valP0)"
    and w1: "w1Height (logic_core f inputs fibRatio prev) = jsub f valP1 valP0" for f
    using assms(1-3) valid by (simp_all add: logic_core_def Let_def)
  have w4: "w4Target (logic_core rnd inputs fibRatio prev)
      = jsub rnd (case p3 inputs of Some v \<Rightarrow> v | None \<Rightarrow> w3Gold (logic_core rnd inputs fibRatio prev))
          (jmul rnd (jsub rnd (case p3 inputs of Some v \<Rightarrow> v
              | None \<Rightarrow> w3Gold (logic_core rnd inputs fibRatio prev)) valP2)
            (ratio_value rnd fibRatio))"
    using assms(1-3) valid by (cases "p3 inputs") (simp_all add: logic_core_def Let_def)
  have ideal: "w5Target (logic_core exact inputs fibRatio prev)
                 - w4Target (logic_core exact inputs fibRatio prev) = valP1 - valP0"
    by (simp add: w5 jops_exact)
  have bound: "\<bar>w5Target (logic_core round_double inputs fibRatio prev)
                 - w4Target (logic_core round_double inputs fibRatio prev) - (valP1 - valP0)\<bar>
      \<le> (\<bar>w4Target (logic_core round_double inputs fibRatio prev)
            + w1Height (logic_core round_double inputs fibRatio prev)\<bar> + \<bar>valP1 - valP0\<bar>) / 2 ^ 53
        + 2 * pow2 (- 1075)"
    unfolding w5 [of round_double] w1 [of round_double] jadd_def jsub_def
    by (rule double_sum_difference_bound)
  have range: "list_all in_double_range
                 (target_operations valP0 valP1 valP2 (p3 inputs) fibRatio)"
    if "\<bar>valP0\<bar> \<le> 2 ^ 1000 \<and> \<bar>valP1\<bar> \<le> 2 ^ 1000 \<and> \<bar>valP2\<bar> \<le> 2 ^ 1000
          \<and> (\<forall>v. p3 inputs = Some v \<longrightarrow> \<bar>v\<bar> \<le> 2 ^ 1000)"
    using that by (intro target_operations_in_range) blast+
  note ops = targets_from_operations [OF assms, of fibRatio prev]
  from w4 w5 [of rnd] ideal bound range ops show ?thesis by (simp only: Let_def) blast
qed

text \<open>
  Scenario B again: \<open>w4Target = 169.44\<close> and \<open>w5Target\<close> lies 50 above it in exact
  arithmetic; in double arithmetic every operation is in range and the bound holds.
\<close>

theorem wave4_wave5_relation_witness:
  "(100 :: real) < 120 \<and> (120 :: real) < 150 \<and> (120 :: real) < 200
   \<and> w4Target (logic_core exact scenario_B_inputs R0382 (initial_result exact)) = 16944 / 100
   \<and> w5Target (logic_core exact scenario_B_inputs R0382 (initial_result exact))
       - w4Target (logic_core exact scenario_B_inputs R0382 (initial_result exact)) = 150 - 100
   \<and> list_all in_double_range (target_operations 100 150 120 (Some 200) R0382)
   \<and> \<bar>w5Target (logic_core round_double scenario_B_inputs R0382 (initial_result exact))
        - w4Target (logic_core round_double scenario_B_inputs R0382 (initial_result exact))
        - (150 - 100)\<bar>
       \<le> (\<bar>w4Target (logic_core round_double scenario_B_inputs R0382 (initial_result exact))
             + w1Height (logic_core round_double scenario_B_inputs R0382 (initial_result exact))\<bar>
            + \<bar>150 - 100\<bar>) / 2 ^ 53 + 2 * pow2 (- 1075)"
proof -
  note t = wave4_wave5_relation
    [of scenario_B_inputs 100 150 120 _ R0382 "initial_result exact", unfolded Let_def]
  have hyps: "p0 scenario_B_inputs = Some 100" "p1 scenario_B_inputs = Some 150"
    "p2 scenario_B_inputs = Some 120" "(100 :: real) < 120" "(120 :: real) < 150"
    "\<forall>v. p3 scenario_B_inputs = Some v \<longrightarrow> 120 < v"
    by (simp_all add: scenario_B_inputs_def)
  have small: "\<bar>100 :: real\<bar> \<le> 2 ^ 1000 \<and> \<bar>150 :: real\<bar> \<le> 2 ^ 1000 \<and> \<bar>120 :: real\<bar> \<le> 2 ^ 1000
      \<and> (\<forall>v. p3 scenario_B_inputs = Some v \<longrightarrow> \<bar>v\<bar> \<le> 2 ^ 1000)"
    by (simp add: scenario_B_inputs_def)
  have p3: "p3 scenario_B_inputs = Some 200" by (simp add: scenario_B_inputs_def)
  note t' = t [OF hyps, of exact, unfolded p3 option.case]
  from t' have ex:
    "w4Target (logic_core exact scenario_B_inputs R0382 (initial_result exact))
       = jsub exact 200 (jmul exact (jsub exact 200 120) (ratio_value exact R0382))"
    "w5Target (logic_core exact scenario_B_inputs R0382 (initial_result exact))
       - w4Target (logic_core exact scenario_B_inputs R0382 (initial_result exact)) = 150 - 100"
    by blast+
  from small have small': "\<bar>100 :: real\<bar> \<le> 2 ^ 1000 \<and> \<bar>150 :: real\<bar> \<le> 2 ^ 1000
      \<and> \<bar>120 :: real\<bar> \<le> 2 ^ 1000 \<and> (\<forall>v. Some 200 = Some v \<longrightarrow> \<bar>v :: real\<bar> \<le> 2 ^ 1000)"
    unfolding p3 .
  from t' small' have dbl:
    "list_all in_double_range (target_operations 100 150 120 (Some 200) R0382)"
    "\<bar>w5Target (logic_core round_double scenario_B_inputs R0382 (initial_result exact))
        - w4Target (logic_core round_double scenario_B_inputs R0382 (initial_result exact))
        - (150 - 100)\<bar>
       \<le> (\<bar>w4Target (logic_core round_double scenario_B_inputs R0382 (initial_result exact))
             + w1Height (logic_core round_double scenario_B_inputs R0382 (initial_result exact))\<bar>
            + \<bar>150 - 100\<bar>) / 2 ^ 53 + 2 * pow2 (- 1075)"
    by blast+
  from ex(1) have "w4Target (logic_core exact scenario_B_inputs R0382 (initial_result exact))
      = 16944 / 100"
    by (simp add: jops_exact ratio_value_def exact_def)
  moreover have "(120 :: real) < 200" by simp
  ultimately show ?thesis using hyps(4,5) ex(2) dbl by blast
qed

text \<open>
  Claim C10 states that every computed output is zero or false until the first successful
  computation. The first run of the effect, on empty inputs, fails and leaves
  \<open>selectedRatio\<close> at its initial value 0.382.
\<close>

theorem initial_ratio_counterexample:
  "\<not> isValid (logic_core round_double empty_inputs R0382 (initial_result round_double))
   \<and> selectedRatio (logic_core round_double empty_inputs R0382 (initial_result round_double))
       \<noteq> 0
   \<and> selectedRatio (logic_core exact empty_inputs R0382 (initial_result exact)) \<noteq> 0"
  by (simp add: logic_core_def empty_inputs_def initial_result_def round_double_literals
      exact_def)

text \<open>
  Claim C10, amended. When validation fails or \<open>P0\<close>, \<open>P1\<close>, \<open>P2\<close> are incomplete, only
  \<open>isValid\<close> and \<open>error\<close> change: after any number of failing runs the computed outputs
  (\<open>w1Height\<close>, \<open>w2RetracementPct\<close>, \<open>w3Min\<close>, \<open>w3Gold\<close>, \<open>w4Target\<close>, \<open>w5Target\<close>,
  \<open>selectedRatio\<close>, \<open>usingManualP3\<close>) are those of the state before them, hence those of the
  most recent successful computation. Initially they are zero and false, except
  \<open>selectedRatio\<close>, which is 0.382.
\<close>

theorem failed_computation_keeps_outputs:
  assumes "\<forall>e \<in> set failing.
             \<not> isValid (logic_core rnd (fst e) (snd e) (initial_result rnd))"
  shows "numeric_fields (run_effects rnd (events @ failing) start)
           = numeric_fields (run_effects rnd events start)
       \<and> numeric_fields (initial_result rnd) = (0, 0, 0, 0, 0, 0, rnd (382 / 1000), False)"
proof
  show "numeric_fields (run_effects rnd (events @ failing) start)
          = numeric_fields (run_effects rnd events start)"
    unfolding run_effects_append using assms by (rule run_effects_failing)
  show "numeric_fields (initial_result rnd) = (0, 0, 0, 0, 0, 0, rnd (382 / 1000), False)"
    by (simp add: numeric_fields_def initial_result_def)
qed

text \<open>
  Scenario A computed, followed by the failing scenario C and by empty inputs: the outputs
  of scenario A remain.
\<close>

theorem failed_computation_keeps_outputs_witness:
  "\<not> isValid (logic_core exact scenario_C_inputs R05 (initial_result exact))
   \<and> \<not> isValid (logic_core exact empty_inputs R0618 (initial_result exact))
   \<and> numeric_fields
        (run_effects exact
           [(scenario_A_inputs, R05), (scenario_C_inputs, R05), (empty_inputs, R0618)]
           (initial_result exact))
       = (50, 60, 170, 2009 / 10, 16045 / 100, 21045 / 100, 1 / 2, False)"
  using failed_computation_keeps_outputs
    [of "[(scenario_C_inputs, R05), (empty_inputs, R0618)]" exact
        "[(scenario_A_inputs, R05)]" "initial_result exact"]
  by (simp add: scenario_A_exact numeric_fields_def)
     (simp add: logic_core_def scenario_C_inputs_def empty_inputs_def)

section \<open>Theorems about the viewport and indexing model\<close>

subsection \<open>Evaluations\<close>

lemma round_double_small_integers:
  "round_double 60 = 60" "round_double 210 = 210" "round_double 120 = 120"
  by code_simp+

lemma length_flat_candles: "length (flat_candles n) = n"
  by (simp add: flat_candles_def)

lemma volume_bars_sum: "sumVol exact volume_bars 2 2 = 30"
  by code_simp

lemma breakout_bars_ma:
  "maData round_double True 5 breakout_bars 5 = Some 11"
  "maData round_double True 5 breakout_bars 4 = Some 9"
  "close (breakout_bars ! 4) = 5" "close (breakout_bars ! 5) = 20"
  "granvilleSignal round_double True 5 breakout_bars 5 = None"
  by code_simp+

lemma rising_bars_ma:
  "maData exact True 5 rising_bars 6 = Some 11"
  "maData exact True 5 rising_bars (6 - 1) = Some 9"
  "close (rising_bars ! (6 - 1)) = 5" "close (rising_bars ! 6) = 20"
  "close (rising_bars ! 5) = 5" "length rising_bars = 7"
  by code_simp+

subsection \<open>The first index of a date\<close>

lemma findIndex_none: "(\<forall>x \<in> set xs. \<not> P x) \<Longrightarrow> findIndex P xs = - 1"
  by (induction xs) auto

lemma findIndex_first:
  "j < length xs \<Longrightarrow> P (xs ! j) \<Longrightarrow> (\<forall>k < j. \<not> P (xs ! k)) \<Longrightarrow> findIndex P xs = int j"
proof (induction xs arbitrary: j)
  case Nil
  then show ?case by simp
next
  case (Cons x xs)
  show ?case
  proof (cases j)
    case 0
    with Cons.prems show ?thesis by simp
  next
    case (Suc i)
    from Cons.prems Suc have "\<not> P x" by auto
    moreover from Cons.prems Suc have "findIndex P xs = int i"
      by (intro Cons.IH) auto
    ultimately show ?thesis using Suc by simp
  qed
qed

lemma findIndex_date_distinct:
  assumes "distinct (map date data)" and "j < length data"
  shows "findIndex (\<lambda>d. date d = date (data ! j)) data = int j"
proof (rule findIndex_first)
  show "j < length data" by fact
  show "date (data ! j) = date (data ! j)" by simp
  show "\<forall>k < j. date (data ! k) \<noteq> date (data ! j)"
  proof (intro allI impI)
    fix k assume "k < j"
    with assms have "map date data ! k \<noteq> map date data ! j"
      by (simp add: nth_eq_iff_index_eq del: nth_map)
    with \<open>k < j\<close> assms(2) show "date (data ! k) \<noteq> date (data ! j)" by simp
  qed
qed

lemma mapped_index_anchored:
  assumes "distinct (map date (older @ data))"
    and "0 \<le> index p" and "nat (index p) < length data"
    and "date (data ! nat (index p)) = pdate p"
  shows "findIndex (\<lambda>d. date d = pdate p) (older @ data) = index p + int (length older)"
proof -
  define j where "j = length older + nat (index p)"
  have j: "j < length (older @ data)" "(older @ data) ! j = data ! nat (index p)"
    using assms(3) by (simp_all add: j_def nth_append)
  from findIndex_date_distinct [OF assms(1) j(1)] j(2) assms(4)
  have "findIndex (\<lambda>d. date d = pdate p) (older @ data) = int j" by simp
  with assms(2) show ?thesis by (simp add: j_def)
qed

lemma mapped_index_absent:
  assumes "pdate p \<notin> date ` set new"
  shows "findIndex (\<lambda>d. date d = pdate p) new = - 1"
  using assms by (intro findIndex_none ballI notI) (metis imageI)

subsection \<open>Anchored pivots\<close>

lemma confirmSetPoint_anchored:
  assumes "confirmSetPoint data st = Inr st'" and "list_all (anchored data) (points st)"
  shows "list_all (anchored data) (points st')"
  using assms
  by (auto simp add: confirmSetPoint_def anchored_def Let_def
      split: option.splits prod.splits if_splits)

lemma layoutEffect_anchored:
  assumes "prevDataLen st = length data" and "list_all (anchored data) (points st)"
  shows "list_all (anchored (older @ data)) (points (layoutEffect rnd (older @ data) st))"
proof (cases "older = []")
  case True
  with assms show ?thesis by (simp add: layoutEffect_def)
next
  case False
  have "anchored (older @ data) (p\<lparr>index := index p + int (length older)\<rparr>)"
    if "anchored data p" for p
  proof -
    from that have "nat (index p + int (length older)) = length older + nat (index p)"
      by (simp add: anchored_def nat_add_distrib)
    with that show ?thesis by (simp add: anchored_def nth_append)
  qed
  with assms False show ?thesis
    by (simp add: layoutEffect_def Let_def list_all_iff)
qed

subsection \<open>The volume loop\<close>

lemma vLen_of_nat: "1 \<le> N \<Longrightarrow> vLen (real N) = N"
proof -
  assume "1 \<le> N"
  have "\<lfloor>real N + 1 / 2\<rfloor> = int N" by linarith
  with \<open>1 \<le> N\<close> show ?thesis by (simp add: vLen_def)
qed

lemma vLen_positive: "1 \<le> vLen volMALength"
  by (simp add: vLen_def)

lemma foldl_jadd_exact:
  "foldl (\<lambda>s k. jadd exact s (f k)) a ks = a + sum_list (map f ks)"
  by (induction ks arbitrary: a) (simp_all add: jops_exact)

lemma sumVol_exact: "sumVol exact data i n = (\<Sum>k = 1..n. volume (data ! (i - k)))"
proof -
  have "sumVol exact data i n = sum_list (map (\<lambda>k. volume (data ! (i - k))) [1..<Suc n])"
    by (simp add: sumVol_def foldl_jadd_exact)
  also have "\<dots> = (\<Sum>k \<in> set [1..<Suc n]. volume (data ! (i - k)))"
    by (rule interv_sum_list_conv_sum_set_nat)
  also have "set [1..<Suc n] = {1..n}" by auto
  finally show ?thesis .
qed

lemma foldl_cong_set:
  "(\<And>s k. k \<in> set ks \<Longrightarrow> f s k = g s k) \<Longrightarrow> foldl f a ks = foldl g a ks"
  by (induction ks arbitrary: a) simp_all

lemma sumVol_ignores_current:
  assumes "n \<le> i"
  shows "sumVol rnd (data[i := c]) i n = sumVol rnd data i n"
  unfolding sumVol_def
proof (rule foldl_cong_set)
  fix s k assume "k \<in> set [1..<Suc n]"
  with assms have "i - k \<noteq> i" by auto
  then show "jadd rnd s (volume (data[i := c] ! (i - k))) = jadd rnd s (volume (data ! (i - k)))"
    by simp
qed

text \<open>
  Whole-number volumes: the sum of the loop is exact as long as it stays below \<open>2 ^ 53\<close>,
  and the flag in double arithmetic is the flag in exact arithmetic.
\<close>

lemma sumVol_double_nat:
  assumes "\<forall>j \<le> i. volume (data ! j) = real (w j)"
    and "(\<Sum>k = 1..n. w (i - k)) < 2 ^ 53"
  shows "sumVol round_double data i n = real (\<Sum>k = 1..n. w (i - k))"
proof -
  have list: "sum_list (map (\<lambda>k. w (i - k)) [1..<Suc n]) = (\<Sum>k = 1..n. w (i - k))"
  proof -
    have "sum_list (map (\<lambda>k. w (i - k)) [1..<Suc n]) = (\<Sum>k \<in> set [1..<Suc n]. w (i - k))"
      by (rule interv_sum_list_conv_sum_set_nat)
    also have "set [1..<Suc n] = {1..n}" by auto
    finally show ?thesis .
  qed
  have "foldl (\<lambda>s k. jadd round_double s (volume (data ! (i - k)))) 0 [1..<Suc n]
          = foldl (\<lambda>s k. jadd round_double s (real (w (i - k)))) 0 [1..<Suc n]"
    by (rule foldl_cong_set) (simp add: assms(1))
  then have "sumVol round_double data i n
          = foldl (\<lambda>s k. jadd round_double s (real (w (i - k)))) (real 0) [1..<Suc n]"
    by (simp add: sumVol_def)
  also have "\<dots> = real (0 + sum_list (map (\<lambda>k. w (i - k)) [1..<Suc n]))"
  proof (rule foldl_round_double_nat)
    show "0 + sum_list (map (\<lambda>k. w (i - k)) [1..<Suc n]) < 2 ^ 53"
      unfolding list using assms(2) by (simp only: add_0)
  qed
  finally show ?thesis unfolding list by (simp only: add_0)
qed

lemma isVolAnomaly_double_nat:
  assumes "\<forall>j \<le> i. volume (data ! j) = real (w j)"
    and "(\<Sum>k = 1..vLen volMALength. w (i - k)) < 2 ^ 52"
    and "vLen volMALength < 2 ^ 52"
  shows "isVolAnomaly round_double data volMALength i = isVolAnomaly exact data volMALength i"
proof -
  define N where "N = vLen volMALength"
  define vs where "vs = (\<Sum>k = 1..N. w (i - k))"
  have N: "1 \<le> N" unfolding N_def by (rule vLen_positive)
  from assms(2) have "vs < 2 ^ 52" unfolding vs_def N_def .
  then have "vs < 2 ^ 53" by simp
  then have dbl: "sumVol round_double data i N = real vs"
    unfolding vs_def by (intro sumVol_double_nat assms(1))
  have "sumVol exact data i N = (\<Sum>k = 1..N. volume (data ! (i - k)))"
    by (rule sumVol_exact)
  also have "\<dots> = (\<Sum>k = 1..N. real (w (i - k)))"
    using assms(1) by (intro sum.cong) simp_all
  finally have ex: "sumVol exact data i N = real vs" unfolding vs_def by simp
  have cur: "volume (data ! i) = real (w i)" using assms(1) by simp
  have "real (w i) \<ge> jdiv round_double (real vs) (real N) \<longleftrightarrow> real (w i) \<ge> real vs / real N"
    using N \<open>vs < 2 ^ 52\<close> assms(3) unfolding N_def [symmetric] by (rule ge_rounded_quotient)
  then show ?thesis
    by (simp add: isVolAnomaly_def volMA_def N_def [symmetric] Let_def dbl ex cur jops_exact)
qed

subsection \<open>The claims\<close>

text \<open>
  Claim C4 states that zoom 60 at offset 0 over 200 candles shows the indices 0 to 59. The
  last visible index is \<open>\<lceil>offset + zoom\<rceil> = 60\<close>.
\<close>

theorem visible_range_counterexample:
  "(visibleStartIndex round_double (flat_candles 200) scenario_D_state,
    visibleEndIndex round_double (flat_candles 200) scenario_D_state) \<noteq> (0, 59)"
  by (simp add: visibleStartIndex_def visibleEndIndex_def effectiveOffset_def jadd_def
      round_double_small_integers length_flat_candles scenario_D_state_def)

text \<open>
  Claim C4, amended. For zoom 60 and offset 0 over a sequence of 200 candles the inclusive
  visible index range is \<open>[0, 60]\<close>; at offset 150 over the same sequence it is
  \<open>[150, 199]\<close>, the nominal end 210 being clamped to the last index 199.
\<close>

theorem visible_range_scenario_D:
  assumes "length data = 200" and "prevDataLen st = 200" and "zoom st = 60"
  shows "(offset st = 0 \<longrightarrow>
            visibleStartIndex round_double data st = 0
          \<and> visibleEndIndex round_double data st = 60)
       \<and> (offset st = 150 \<longrightarrow>
            visibleStartIndex round_double data st = 150
          \<and> \<lceil>jadd round_double (effectiveOffset round_double data st) (zoom st)\<rceil> = 210
          \<and> visibleEndIndex round_double data st = 199)"
  using assms
  by (simp add: visibleStartIndex_def visibleEndIndex_def effectiveOffset_def jadd_def
      round_double_small_integers)

theorem visible_range_scenario_D_witness:
  "length (flat_candles 200) = 200
   \<and> visibleStartIndex round_double (flat_candles 200) scenario_D_state = 0
   \<and> visibleEndIndex round_double (flat_candles 200) scenario_D_state = 60
   \<and> visibleStartIndex round_double (flat_candles 200) (scenario_D_state\<lparr>offset := 150\<rparr>) = 150
   \<and> visibleEndIndex round_double (flat_candles 200) (scenario_D_state\<lparr>offset := 150\<rparr>) = 199"
  using visible_range_scenario_D [of "flat_candles 200" scenario_D_state]
    visible_range_scenario_D [of "flat_candles 200" "scenario_D_state\<lparr>offset := 150\<rparr>"]
  by (simp add: length_flat_candles scenario_D_state_def)

text \<open>
  Claim C6. Let \<open>N\<close> be the window, \<open>vLen\<close> of the configured length: the length itself
  when it is a whole number from 1 on. For every bar index \<open>i\<close> the volume-anomaly flag is
  true iff at least \<open>N\<close> prior bars exist and the volume of the bar is greater than or
  equal to the mean of the volumes of the \<open>N\<close> bars strictly before it. The mean is the
  sum over \<open>k = 1 .. N\<close> of the volume of bar \<open>i - k\<close>, divided by \<open>N\<close>: computed by the
  loop with the operations of JavaScript, and in exact arithmetic the arithmetic mean
  itself. The volume of the bar itself is never part of it: replacing bar \<open>i\<close> leaves the
  average unchanged. With fewer than \<open>N\<close> prior bars the average is undefined and the flag
  false. In double arithmetic the flag is the one of exact arithmetic whenever the
  volumes are whole numbers whose sum over the window stays below \<open>2 ^ 52\<close>.
\<close>

theorem volume_anomaly_flag:
  assumes "i < length data" and "N = vLen volMALength"
  shows "1 \<le> N
       \<and> (\<forall>M \<ge> 1. vLen (real M) = M)
       \<and> (isVolAnomaly rnd data volMALength i \<longleftrightarrow>
            N \<le> i \<and> volume (data ! i) \<ge> jdiv rnd (sumVol rnd data i N) (real N))
       \<and> sumVol exact data i N = (\<Sum>k = 1..N. volume (data ! (i - k)))
       \<and> (isVolAnomaly exact data volMALength i \<longleftrightarrow>
            N \<le> i \<and> volume (data ! i) \<ge> (\<Sum>k = 1..N. volume (data ! (i - k))) / real N)
       \<and> volMA rnd (data[i := c]) volMALength i = volMA rnd data volMALength i
       \<and> (i < N \<longrightarrow> volMA rnd data volMALength i = None
                   \<and> \<not> isVolAnomaly rnd data volMALength i)
       \<and> ((\<forall>j \<le> i. volume (data ! j) = real (w j))
            \<and> (\<Sum>k = 1..N. w (i - k)) < 2 ^ 52 \<and> N < 2 ^ 52 \<longrightarrow>
          isVolAnomaly round_double data volMALength i
            = isVolAnomaly exact data volMALength i)"
proof -
  have pos: "1 \<le> N" unfolding assms(2) by (rule vLen_positive)
  have ints: "\<forall>M \<ge> 1. vLen (real M) = M" by (simp add: vLen_of_nat)
  have flag: "isVolAnomaly f data volMALength i \<longleftrightarrow>
      N \<le> i \<and> volume (data ! i) \<ge> jdiv f (sumVol f data i N) (real N)" for f
    by (simp add: isVolAnomaly_def volMA_def assms(2) Let_def)
  have ideal: "isVolAnomaly exact data volMALength i \<longleftrightarrow>
      N \<le> i \<and> volume (data ! i) \<ge> (\<Sum>k = 1..N. volume (data ! (i - k))) / real N"
    unfolding flag [of exact] by (simp add: sumVol_exact jops_exact)
  have own: "volMA rnd (data[i := c]) volMALength i = volMA rnd data volMALength i"
    by (simp add: volMA_def assms(2) Let_def sumVol_ignores_current)
  have few: "i < N \<longrightarrow> volMA rnd data volMALength i = None
               \<and> \<not> isVolAnomaly rnd data volMALength i"
    by (simp add: isVolAnomaly_def volMA_def assms(2) Let_def)
  have whole: "(\<forall>j \<le> i. volume (data ! j) = real (w j))
      \<and> (\<Sum>k = 1..N. w (i - k)) < 2 ^ 52 \<and> N < 2 ^ 52 \<longrightarrow>
    isVolAnomaly round_double data volMALength i = isVolAnomaly exact data volMALength i"
  proof (intro impI, elim conjE)
    assume "\<forall>j \<le> i. volume (data ! j) = real (w j)"
      and "(\<Sum>k = 1..N. w (i - k)) < 2 ^ 52" and "N < 2 ^ 52"
    then show "isVolAnomaly round_double data volMALength i
                 = isVolAnomaly exact data volMALength i"
      unfolding assms(2) by (rule isVolAnomaly_double_nat)
  qed
  from pos ints flag [of rnd] sumVol_exact ideal own few whole show ?thesis by blast
qed

text \<open>
  Volumes 10, 20, 15, 40 and a window of 2: bar 2 has exactly the mean 15 of its two
  predecessors and is flagged; bar 1 has one predecessor only and no average.
\<close>

theorem volume_anomaly_flag_witness:
  "2 < length volume_bars \<and> vLen 2 = 2
   \<and> volume (volume_bars ! 2) = 15
   \<and> (\<Sum>k = 1..2. volume (volume_bars ! (2 - k))) / real 2 = 15
   \<and> isVolAnomaly exact volume_bars 2 2
   \<and> volMA exact volume_bars 2 1 = None"
proof -
  have len: "2 < length volume_bars" "1 < length volume_bars"
    by (simp_all add: volume_bars_def)
  have v: "2 = vLen 2"
    using vLen_of_nat [of 2] by simp
  have vol: "volume (volume_bars ! 2) = 15"
    by (simp add: volume_bars_def bar_def)
  note at2 = volume_anomaly_flag [OF len(1) v, of exact "volume_bars ! 2" "\<lambda>j. 0"]
  note at1 = volume_anomaly_flag [OF len(2) v, of exact "volume_bars ! 1" "\<lambda>j. 0"]
  from at2 have mean: "(\<Sum>k = 1..2. volume (volume_bars ! (2 - k))) = 30"
    using volume_bars_sum by simp
  from at2 have "isVolAnomaly exact volume_bars 2 2 \<longleftrightarrow>
      (2 :: nat) \<le> 2 \<and> volume (volume_bars ! 2) \<ge> (\<Sum>k = 1..2. volume (volume_bars ! (2 - k))) / real 2"
    by blast
  then have flag: "isVolAnomaly exact volume_bars 2 2"
    unfolding mean vol by simp
  from at1 have none: "volMA exact volume_bars 2 1 = None" by simp
  have "(30 :: real) / real 2 = 15" by simp
  with len(1) v vol flag none show ?thesis unfolding mean by simp
qed

text \<open>
  Claim C7. A sequence \<open>data\<close> is extended by prepending the \<open>K\<close> candles \<open>older\<close>, all
  dates distinct, and each pivot is anchored in \<open>data\<close> (as the pivots that
  \<open>confirmSetPoint\<close> creates are) or carries a date absent from the new sequence. Then re-deriving the indices against the
  new sequence gives \<open>index + K\<close> for every pivot, in the render that first sees the new
  sequence (by the date, or by the index shift when the date is absent) as well as in the
  stored pivots and in every render after the layout effect. The offset is shifted by
  \<open>K\<close> in that same render, and the layout effect stores the same value.
\<close>

theorem pivot_reindexing:
  assumes "distinct (map date (older @ data))"
    and "older \<noteq> []"
    and "prevDataLen st = length data"
    and "\<forall>p \<in> set (points st).
           anchored data p \<or> pdate p \<notin> date ` set (older @ data)"
  shows "map index (mappedPoints (older @ data) st)
           = map (\<lambda>p. index p + int (length older)) (points st)
       \<and> effectiveOffset rnd (older @ data) st = jadd rnd (offset st) (real (length older))
       \<and> offset (layoutEffect rnd (older @ data) st) = effectiveOffset rnd (older @ data) st
       \<and> map index (points (layoutEffect rnd (older @ data) st))
           = map index (mappedPoints (older @ data) st)
       \<and> map index (mappedPoints (older @ data) (layoutEffect rnd (older @ data) st))
           = map index (mappedPoints (older @ data) st)
       \<and> effectiveOffset rnd (older @ data) (layoutEffect rnd (older @ data) st)
           = effectiveOffset rnd (older @ data) st"
proof -
  let ?new = "older @ data"
  let ?K = "int (length older)"
  let ?st' = "layoutEffect rnd ?new st"
  from assms(2,3) have grows: "length ?new > prevDataLen st" by simp
  have diff: "dataDiff ?new st = ?K"
    using grows assms(3) by (simp add: dataDiff_def)
  have one: "index (let newIndex = findIndex (\<lambda>d. date d = pdate p) ?new
                    in if newIndex \<noteq> - 1 then p\<lparr>index := newIndex\<rparr>
                       else p\<lparr>index := index p + dataDiff ?new st\<rparr>) = index p + ?K"
    if "p \<in> set (points st)" for p
  proof -
    from assms(4) that
    consider "0 \<le> index p \<and> nat (index p) < length data \<and> date (data ! nat (index p)) = pdate p"
      | "pdate p \<notin> date ` set ?new" unfolding anchored_def by blast
    then show ?thesis
    proof cases
      case 1
      then have "findIndex (\<lambda>d. date d = pdate p) ?new = index p + ?K"
        using mapped_index_anchored [OF assms(1)] by blast
      with 1 show ?thesis by (simp add: Let_def)
    next
      case 2
      then have "findIndex (\<lambda>d. date d = pdate p) ?new = - 1"
        by (rule mapped_index_absent)
      then show ?thesis by (simp add: Let_def diff)
    qed
  qed
  have mapped: "map index (mappedPoints ?new st) = map (\<lambda>p. index p + ?K) (points st)"
    unfolding mappedPoints_def using one by (simp add: comp_def)
  have eff: "effectiveOffset rnd ?new st = jadd rnd (offset st) (real (length older))"
    using grows assms(3) by (simp add: effectiveOffset_def)
  have st': "offset ?st' = jadd rnd (offset st) (real (length older))"
    "points ?st' = map (\<lambda>p. p\<lparr>index := index p + ?K\<rparr>) (points st)"
    "prevDataLen ?st' = length ?new"
    using grows assms(3) by (simp_all add: layoutEffect_def Let_def)
  have stored: "map index (points ?st') = map (\<lambda>p. index p + ?K) (points st)"
    by (simp add: st'(2) comp_def)
  have diff': "dataDiff ?new ?st' = 0"
    by (simp add: dataDiff_def st'(3))
  have one': "index (let newIndex = findIndex (\<lambda>d. date d = pdate q) ?new
                    in if newIndex \<noteq> - 1 then q\<lparr>index := newIndex\<rparr>
                       else q\<lparr>index := index q + dataDiff ?new ?st'\<rparr>) = index p + ?K"
    if "p \<in> set (points st)" and "q = p\<lparr>index := index p + ?K\<rparr>" for p q
  proof -
    from assms(4) that(1)
    consider "0 \<le> index p \<and> nat (index p) < length data \<and> date (data ! nat (index p)) = pdate p"
      | "pdate p \<notin> date ` set ?new" unfolding anchored_def by blast
    then show ?thesis
    proof cases
      case 1
      then have "findIndex (\<lambda>d. date d = pdate p) ?new = index p + ?K"
        using mapped_index_anchored [OF assms(1)] by blast
      with 1 that(2) show ?thesis by (simp add: Let_def)
    next
      case 2
      then have "findIndex (\<lambda>d. date d = pdate p) ?new = - 1"
        by (rule mapped_index_absent)
      with that(2) show ?thesis by (simp add: Let_def diff')
    qed
  qed
  have again: "map index (mappedPoints ?new ?st') = map (\<lambda>p. index p + ?K) (points st)"
    unfolding mappedPoints_def st'(2) using one' by (simp add: comp_def)
  have eff': "effectiveOffset rnd ?new ?st' = jadd rnd (offset st) (real (length older))"
    by (simp add: effectiveOffset_def st'(1,3))
  from mapped eff st'(1) stored again eff' show ?thesis by simp
qed

text \<open>Two candles prepended to three, with pivots on the first and the last of the three.\<close>

theorem pivot_reindexing_witness:
  "distinct (map date (older_bars @ recent_bars))
   \<and> map index (points pivot_state) = [0, 2]
   \<and> map index (mappedPoints (older_bars @ recent_bars) pivot_state) = [2, 4]
   \<and> effectiveOffset exact (older_bars @ recent_bars) pivot_state = 5 / 2
   \<and> offset (layoutEffect exact (older_bars @ recent_bars) pivot_state) = 5 / 2
   \<and> map index (points (layoutEffect exact (older_bars @ recent_bars) pivot_state)) = [2, 4]"
proof -
  have d: "distinct (map date (older_bars @ recent_bars))"
    by (simp add: older_bars_def recent_bars_def bar_def)
  have n: "older_bars \<noteq> []" "prevDataLen pivot_state = length recent_bars"
    by (simp_all add: older_bars_def recent_bars_def pivot_state_def)
  have a: "\<forall>p \<in> set (points pivot_state).
           anchored recent_bars p \<or> pdate p \<notin> date ` set (older_bars @ recent_bars)"
    by (simp add: pivot_state_def recent_bars_def bar_def anchored_def)
  from pivot_reindexing [OF d n a, of exact] d show ?thesis
    by (simp add: pivot_state_def older_bars_def jops_exact)
qed

text \<open>
  Claim C8 states that every bar with a moving average for itself and for its predecessor
  is tested. With a window of 5 the bar at index 5 has both averages, 11 and 9, and its
  close crosses from 5 below to 20 above them, which is a breakout-up; the code assigns no
  signal, since it only tests bars with \<open>i > maLength\<close>.
\<close>

theorem granville_guard_counterexample:
  "maData round_double True 5 breakout_bars 5 = Some 11
   \<and> maData round_double True 5 breakout_bars 4 = Some 9
   \<and> first_match (signal_rules round_double (close (breakout_bars ! 4))
        (close (breakout_bars ! 5)) 9 11) = Some \<lparr>stype = TypeB, code = 1\<rparr>
   \<and> granvilleSignal round_double True 5 breakout_bars 5 = None"
  by (simp add: breakout_bars_ma signal_rules_def first_match_def Let_def)

text \<open>
  Claim C8, amended. For every bar with index \<open>i > maLength\<close> whose moving average is
  defined for the bar and for its predecessor, the signal assigned is that of the first
  rule that matches, in the order breakout-up, breakdown-down, oversold, overbought: at
  most one signal, and none when no rule matches. A bar with \<open>i \<le> maLength\<close> gets no
  signal. (In exact arithmetic both averages are defined for every \<open>i > maLength\<close>.)
\<close>

theorem granville_priority:
  assumes "granvilleEnabled" and "0 < maLength" and "maLength < real i" and "i < length data"
    and "maData rnd granvilleEnabled maLength data i = Some currentMa"
    and "maData rnd granvilleEnabled maLength data (i - 1) = Some prevMa"
    and "currentMa \<noteq> 0"
  shows "granvilleSignal rnd granvilleEnabled maLength data i
           = first_match
               (signal_rules rnd (close (data ! (i - 1))) (close (data ! i)) prevMa currentMa)
       \<and> (\<forall>j. real j \<le> maLength \<longrightarrow>
             granvilleSignal rnd granvilleEnabled maLength data j = None)
       \<and> maData exact granvilleEnabled maLength data i \<noteq> None
       \<and> maData exact granvilleEnabled maLength data (i - 1) \<noteq> None"
proof -
  from assms(2,3) have "1 \<le> i" by (cases i) simp_all
  then have "real (i - 1) = real i - 1" by simp
  with assms(1,3) have defined:
    "maData exact granvilleEnabled maLength data i \<noteq> None"
    "maData exact granvilleEnabled maLength data (i - 1) \<noteq> None"
    by (simp_all add: maData_def jops_exact)
  have "granvilleSignal rnd granvilleEnabled maLength data i
          = first_match
              (signal_rules rnd (close (data ! (i - 1))) (close (data ! i)) prevMa currentMa)"
    using assms(1,3,5,6)
    by (auto simp add: granvilleSignal_def signal_rules_def first_match_def Let_def)
  moreover have "\<forall>j. real j \<le> maLength \<longrightarrow>
      granvilleSignal rnd granvilleEnabled maLength data j = None"
    by (simp add: granvilleSignal_def)
  ultimately show ?thesis using defined by blast
qed

text \<open>
  Closes 10, 10, 10, 10, 10, 5, 20 and a window of 5: bar 6 is a breakout-up, bar 5 is not
  tested.
\<close>

theorem granville_priority_witness:
  "(0 :: real) < 5 \<and> (5 :: real) < real (6 :: nat) \<and> 6 < length rising_bars
   \<and> maData exact True 5 rising_bars 6 = Some 11
   \<and> maData exact True 5 rising_bars (6 - 1) = Some 9
   \<and> granvilleSignal exact True 5 rising_bars 6 = Some \<lparr>stype = TypeB, code = 1\<rparr>
   \<and> granvilleSignal exact True 5 rising_bars 5 = None"
proof -
  have "(5 :: real) < real (6 :: nat)" "6 < length rising_bars" "(11 :: real) \<noteq> 0"
    by (simp_all add: rising_bars_ma)
  from granville_priority [OF TrueI _ this(1,2) rising_bars_ma(1,2) this(3)]
  have sig: "granvilleSignal exact True 5 rising_bars 6
           = first_match (signal_rules exact (close (rising_bars ! (6 - 1))) (close (rising_bars ! 6)) 9 11)"
    and none: "\<forall>j. real j \<le> 5 \<longrightarrow> granvilleSignal exact True 5 rising_bars j = None"
    by simp_all
  from sig have "granvilleSignal exact True 5 rising_bars 6 = Some \<lparr>stype = TypeB, code = 1\<rparr>"
    by (simp add: rising_bars_ma signal_rules_def first_match_def Let_def)
  moreover from none have "granvilleSignal exact True 5 rising_bars 5 = None"
    by simp
  ultimately show ?thesis using rising_bars_ma by simp
qed

text \<open>
  Claim C9 on the code. A candle sequence is replaced through \<open>fetchStockData\<close>: the
  sequence is emptied, which unmounts the chart, and the fetched sequence mounts a new one.
  Whatever the chart was before, the new one has offset 0 and zoom 60, and the effect that
  would move the offset to \<open>length - 60\<close> changes nothing, since \<open>prevDataLen\<close> starts at the
  length of the sequence and not at 0. The visible range is \<open>[0, min (length - 1, 60)]\<close>:
  the oldest candles, not the most recent ones. \<open>handleResetView\<close> sets the offset
  \<open>length - 60\<close> that the claim describes.
\<close>

theorem replacement_shows_oldest_candles:
  assumes "parsedData \<noteq> []"
  shows "fetchStockData round_double (Some parsedData) chart = Some (mountSmartChart parsedData)
       \<and> offset (mountSmartChart parsedData) = 0
       \<and> zoom (mountSmartChart parsedData) = 60
       \<and> visibleStartIndex round_double parsedData (mountSmartChart parsedData) = 0
       \<and> visibleEndIndex round_double parsedData (mountSmartChart parsedData)
           = min (int (length parsedData) - 1) 60
       \<and> initialOffsetEffect parsedData (mountSmartChart parsedData) = mountSmartChart parsedData
       \<and> offset (handleResetView parsedData (mountSmartChart parsedData))
           = of_int (max 0 (int (length parsedData) - 60))"
proof -
  from assms have len: "0 < length parsedData" by simp
  have effects: "commitEffects round_double parsedData (mountSmartChart parsedData)
                   = mountSmartChart parsedData"
    using len by (simp add: commitEffects_def initialOffsetEffect_def layoutEffect_def
        mountSmartChart_def)
  have "renderSmartChart round_double [] chart = None"
    by (simp add: renderSmartChart_def)
  then have fetch: "fetchStockData round_double (Some parsedData) chart
                      = Some (mountSmartChart parsedData)"
    using len by (simp add: fetchStockData_def renderSmartChart_def effects)
  have never: "initialOffsetEffect parsedData (mountSmartChart parsedData)
                 = mountSmartChart parsedData"
    using len by (simp add: initialOffsetEffect_def mountSmartChart_def)
  have view: "visibleStartIndex round_double parsedData (mountSmartChart parsedData) = 0"
    "visibleEndIndex round_double parsedData (mountSmartChart parsedData)
       = min (int (length parsedData) - 1) 60"
    by (simp_all add: visibleStartIndex_def visibleEndIndex_def effectiveOffset_def jadd_def
        mountSmartChart_def round_double_small_integers)
  have reset: "offset (handleResetView parsedData (mountSmartChart parsedData))
                 = of_int (max 0 (int (length parsedData) - 60))"
    by (simp add: handleResetView_def)
  from fetch never view reset show ?thesis by (simp add: mountSmartChart_def)
qed

text \<open>
  A chart replaced by 120 fetched candles shows \<open>[0, 60]\<close>; the newest candle has index
  119. After \<open>handleResetView\<close> the range is \<open>[60, 119]\<close>.
\<close>

theorem replacement_shows_oldest_candles_witness:
  "flat_candles 120 \<noteq> []
   \<and> fetchStockData round_double (Some (flat_candles 120)) (Some scenario_D_state)
       = Some (mountSmartChart (flat_candles 120))
   \<and> visibleStartIndex round_double (flat_candles 120) (mountSmartChart (flat_candles 120)) = 0
   \<and> visibleEndIndex round_double (flat_candles 120) (mountSmartChart (flat_candles 120)) = 60
   \<and> int (length (flat_candles 120)) - 1 = 119
   \<and> visibleStartIndex round_double (flat_candles 120)
        (handleResetView (flat_candles 120) (mountSmartChart (flat_candles 120))) = 60
   \<and> visibleEndIndex round_double (flat_candles 120)
        (handleResetView (flat_candles 120) (mountSmartChart (flat_candles 120))) = 119"
proof -
  have ne: "flat_candles 120 \<noteq> []"
    using length_flat_candles [of 120] by auto
  note t = replacement_shows_oldest_candles [OF ne, of "Some scenario_D_state"]
  from t have a: "fetchStockData round_double (Some (flat_candles 120)) (Some scenario_D_state)
       = Some (mountSmartChart (flat_candles 120))"
    "visibleStartIndex round_double (flat_candles 120) (mountSmartChart (flat_candles 120)) = 0"
    by blast+
  from t have "visibleEndIndex round_double (flat_candles 120) (mountSmartChart (flat_candles 120))
       = min (int (length (flat_candles 120)) - 1) 60" by blast
  then have b: "visibleEndIndex round_double (flat_candles 120)
      (mountSmartChart (flat_candles 120)) = 60"
    by (simp add: length_flat_candles)
  from t have "offset (handleResetView (flat_candles 120) (mountSmartChart (flat_candles 120)))
      = of_int (max 0 (int (length (flat_candles 120)) - 60))" by blast
  then have off: "offset (handleResetView (flat_candles 120) (mountSmartChart (flat_candles 120)))
      = 60" by (simp add: length_flat_candles)
  have c: "visibleStartIndex round_double (flat_candles 120)
        (handleResetView (flat_candles 120) (mountSmartChart (flat_candles 120))) = 60"
    "visibleEndIndex round_double (flat_candles 120)
        (handleResetView (flat_candles 120) (mountSmartChart (flat_candles 120))) = 119"
    using off
    by (simp_all add: visibleStartIndex_def visibleEndIndex_def effectiveOffset_def jadd_def
        handleResetView_def mountSmartChart_def length_flat_candles round_double_small_integers)
  from ne a b c show ?thesis by (simp add: length_flat_candles)
qed

end
